theory Spec2Isabelle
  imports Main "HOL-Library.Sublist"
begin

section \<open>JavaScript values and string primitives\<close>

text \<open>
  A JavaScript string is modelled as an Isabelle \<open>string\<close>: a list of code units, here
  the code units below 256 (the Latin-1 range of UTF-16). The TypeScript annotations
  \<open>string[][]\<close> are erased at run time and the code itself guards against \<open>null\<close> and
  \<open>undefined\<close> cells, so a cell is one of three run-time values. Rows and tables are
  arrays, hence lists.
\<close>

datatype cell = Str string | Null | Undefined

datatype error = TypeError

type_synonym row = "cell list"
type_synonym table = "row list"

fun isStr :: "cell \<Rightarrow> bool" where
  "isStr (Str s) = True"
| "isStr Null = False"
| "isStr Undefined = False"

definition stringRow :: "row \<Rightarrow> bool" where
  "stringRow r = list_all isStr r"

definition stringTable :: "table \<Rightarrow> bool" where
  "stringTable t = list_all stringRow t"

text \<open>
  \<open>String.prototype.trim\<close> strips WhiteSpace and LineTerminator code units from both
  ends. Below 256 these are TAB, LF, VT, FF, CR, SP and NBSP.
\<close>

definition isWhiteSpace :: "char \<Rightarrow> bool" where
  "isWhiteSpace c = (let n = (of_char c :: nat) in
     n = 9 \<or> n = 10 \<or> n = 11 \<or> n = 12 \<or> n = 13 \<or> n = 32 \<or> n = 160)"

definition trim :: "string \<Rightarrow> string" where
  "trim s = rev (dropWhile isWhiteSpace (rev (dropWhile isWhiteSpace s)))"

text \<open>
  \<open>String.prototype.toLowerCase\<close> on the Latin-1 range: A-Z and the accented capitals
  U+00C0..U+00DE (without the multiplication sign U+00D7) move up by 32.
\<close>

definition toLowerChar :: "char \<Rightarrow> char" where
  "toLowerChar c = (let n = (of_char c :: nat) in
     if (65 \<le> n \<and> n \<le> 90) \<or> (192 \<le> n \<and> n \<le> 222 \<and> n \<noteq> 215)
     then char_of (n + 32) else c)"

definition toLowerCase :: "string \<Rightarrow> string" where
  "toLowerCase s = map toLowerChar s"

text \<open>\<open>s.split(d)\<close> for a one-character separator: never empty, \<open>"".split(d) = [""]\<close>.\<close>

fun split :: "char \<Rightarrow> string \<Rightarrow> string list" where
  "split d [] = [[]]"
| "split d (c # cs) =
     (if c = d then [] # split d cs
      else (case split d cs of [] \<Rightarrow> [[c]] | l # ls \<Rightarrow> (c # l) # ls))"

text \<open>\<open>s.split(/\r?\n/)\<close>: a line ends at LF or at CR immediately followed by LF.\<close>

definition LF :: char where "LF = char_of (10 :: nat)"
definition CR :: char where "CR = char_of (13 :: nat)"

fun splitLines :: "string \<Rightarrow> string list" where
  "splitLines [] = [[]]"
| "splitLines [c] = (if c = LF then [[], []] else [[c]])"
| "splitLines (c # d # cs) =
     (if c = LF then [] # splitLines (d # cs)
      else if c = CR \<and> d = LF then [] # splitLines cs
      else (case splitLines (d # cs) of [] \<Rightarrow> [[c]] | l # ls \<Rightarrow> (c # l) # ls))"

text \<open>\<open>xs.join(sep)\<close> on an array of strings.\<close>

fun join :: "string \<Rightarrow> string list \<Rightarrow> string" where
  "join sep [] = []"
| "join sep [x] = x"
| "join sep (x # y # ys) = x @ sep @ join sep (y # ys)"

text \<open>
  Reading index 0 of an array yields \<open>undefined\<close> when the array is empty; calling a
  string method on \<open>null\<close> or \<open>undefined\<close> throws a TypeError.
\<close>

definition index0 :: "string list \<Rightarrow> cell" where
  "index0 xs = (case xs of [] \<Rightarrow> Undefined | x # _ \<Rightarrow> Str x)"

definition cell0 :: "row \<Rightarrow> cell" where
  "cell0 r = (case r of [] \<Rightarrow> Undefined | c # _ \<Rightarrow> c)"

fun trimCell :: "cell \<Rightarrow> error + string" where
  "trimCell (Str s) = Inr (trim s)"
| "trimCell Null = Inl TypeError"
| "trimCell Undefined = Inl TypeError"

fun splitCell :: "cell \<Rightarrow> char \<Rightarrow> error + string list" where
  "splitCell (Str s) d = Inr (split d s)"
| "splitCell Null d = Inl TypeError"
| "splitCell Undefined d = Inl TypeError"

text \<open>\<open>v || ''\<close>: the falsy values \<open>null\<close>, \<open>undefined\<close> and \<open>""\<close> all become \<open>""\<close>.\<close>

fun orEmpty :: "cell \<Rightarrow> string" where
  "orEmpty (Str s) = s"
| "orEmpty Null = []"
| "orEmpty Undefined = []"

text \<open>\<open>!v\<close> is true exactly for the falsy values.\<close>

fun falsy :: "cell \<Rightarrow> bool" where
  "falsy (Str s) = (s = [])"
| "falsy Null = True"
| "falsy Undefined = True"

section \<open>The tokenizer: parseCSV\<close>

record parsed =
  data :: "string list list"
  headers :: "string list"

text \<open>
  \<open>parseCSV\<close> of \<open>src/utils/csvUtils.ts\<close>: every line is split on a comma.
  \<open>lines[0].split\<close> would throw on an empty \<open>lines\<close>; the length check before it
  is what keeps that from happening.
\<close>

definition parseCSV :: "string \<Rightarrow> error + parsed" where
  "parseCSV csvContent =
     (let lines = filter (\<lambda>line. trim line \<noteq> []) (splitLines csvContent) in
      if length lines = 0 then Inr \<lparr>data = [], headers = []\<rparr>
      else (case splitCell (index0 lines) (CHR '','') of
              Inl e \<Rightarrow> Inl e
            | Inr hs \<Rightarrow>
                Inr \<lparr>data = map (\<lambda>line. map trim (split (CHR '','') line)) (drop 1 lines),
                     headers = map trim hs\<rparr>))"

text \<open>
  \<open>parseCSV\<close> of \<open>part_001\<close>: the delimiter is read off the first line of the raw text
  (before blank lines are filtered out).
\<close>

definition detectDelimiter :: "string \<Rightarrow> char" where
  "detectDelimiter csvContent =
     (let firstLine = orEmpty (index0 (splitLines csvContent)) in
      if CHR '';'' \<in> set firstLine then CHR '';'' else CHR '','')"

definition parseCSV_part001 :: "string \<Rightarrow> error + parsed" where
  "parseCSV_part001 csvContent =
     (let delimiter = detectDelimiter csvContent;
          lines = filter (\<lambda>line. trim line \<noteq> []) (splitLines csvContent) in
      if length lines = 0 then Inr \<lparr>data = [], headers = []\<rparr>
      else (case splitCell (index0 lines) delimiter of
              Inl e \<Rightarrow> Inl e
            | Inr hs \<Rightarrow>
                Inr \<lparr>data = map (\<lambda>line. map trim (split delimiter line)) (drop 1 lines),
                     headers = map trim hs\<rparr>))"

section \<open>Callbacks that may throw\<close>

text \<open>
  \<open>Array.prototype.map\<close>, \<open>filter\<close> and \<open>some\<close> with a callback that may throw: the
  first exception leaves the loop; \<open>some\<close> stops at the first hit without looking at
  the remaining elements.
\<close>

fun mapE :: "('a \<Rightarrow> error + 'b) \<Rightarrow> 'a list \<Rightarrow> error + 'b list" where
  "mapE f [] = Inr []"
| "mapE f (x # xs) =
     (case f x of
        Inl e \<Rightarrow> Inl e
      | Inr y \<Rightarrow> (case mapE f xs of Inl e \<Rightarrow> Inl e | Inr ys \<Rightarrow> Inr (y # ys)))"

fun filterE :: "('a \<Rightarrow> error + bool) \<Rightarrow> 'a list \<Rightarrow> error + 'a list" where
  "filterE p [] = Inr []"
| "filterE p (x # xs) =
     (case p x of
        Inl e \<Rightarrow> Inl e
      | Inr b \<Rightarrow> (case filterE p xs of
                    Inl e \<Rightarrow> Inl e
                  | Inr ys \<Rightarrow> Inr (if b then x # ys else ys)))"

fun someE :: "('a \<Rightarrow> error + bool) \<Rightarrow> 'a list \<Rightarrow> error + bool" where
  "someE p [] = Inr False"
| "someE p (x # xs) =
     (case p x of Inl e \<Rightarrow> Inl e | Inr b \<Rightarrow> if b then Inr True else someE p xs)"

section \<open>The transform library of csvUtils.ts\<close>

subsection \<open>removeDuplicates (exact match on the JSON text of the row)\<close>

definition hexDigit :: "nat \<Rightarrow> char" where
  "hexDigit n = (if n < 10 then char_of (48 + n) else char_of (87 + n))"

text \<open>QuoteJSONString: the escapes of \<open>JSON.stringify\<close> for one code unit.\<close>

definition quoteJSONChar :: "char \<Rightarrow> string" where
  "quoteJSONChar c = (let n = (of_char c :: nat); bs = char_of (92 :: nat) in
     if n = 8 then [bs, CHR ''b'']
     else if n = 9 then [bs, CHR ''t'']
     else if n = 10 then [bs, CHR ''n'']
     else if n = 12 then [bs, CHR ''f'']
     else if n = 13 then [bs, CHR ''r'']
     else if n = 34 then [bs, c]
     else if n = 92 then [bs, c]
     else if n < 32 then [bs, CHR ''u'', CHR ''0'', CHR ''0'', hexDigit (n div 16), hexDigit (n mod 16)]
     else [c])"

definition quoteJSONString :: "string \<Rightarrow> string" where
  "quoteJSONString s = [char_of (34 :: nat)] @ concat (map quoteJSONChar s) @ [char_of (34 :: nat)]"

text \<open>Inside an array \<open>JSON.stringify\<close> writes both \<open>null\<close> and \<open>undefined\<close> as \<open>null\<close>.\<close>

fun stringifyCell :: "cell \<Rightarrow> string" where
  "stringifyCell (Str s) = quoteJSONString s"
| "stringifyCell Null = ''null''"
| "stringifyCell Undefined = ''null''"

definition JSON_stringify :: "row \<Rightarrow> string" where
  "JSON_stringify r = ''['' @ join '','' (map stringifyCell r) @ '']''"

text \<open>The filter callback reads and extends the set \<open>seen\<close>.\<close>

fun removeDuplicates_filter :: "string set \<Rightarrow> table \<Rightarrow> table" where
  "removeDuplicates_filter seen [] = []"
| "removeDuplicates_filter seen (row # rest) =
     (let rowStr = JSON_stringify row in
      if rowStr \<in> seen then removeDuplicates_filter seen rest
      else row # removeDuplicates_filter (insert rowStr seen) rest)"

definition removeDuplicates :: "table \<Rightarrow> error + (table \<times> nat)" where
  "removeDuplicates dat =
     (let uniqueData = removeDuplicates_filter {} dat in
      Inr (uniqueData, length dat - length uniqueData))"

subsection \<open>trimWhitespace (no guard: \<open>cell.trim()\<close> on every cell)\<close>

fun trimWhitespace_row :: "row \<Rightarrow> nat \<Rightarrow> error + (row \<times> nat)" where
  "trimWhitespace_row [] cellsFixed = Inr ([], cellsFixed)"
| "trimWhitespace_row (c # cs) cellsFixed =
     (case trimCell c of
        Inl e \<Rightarrow> Inl e
      | Inr trimmed \<Rightarrow>
          (case trimWhitespace_row cs (if Str trimmed \<noteq> c then cellsFixed + 1 else cellsFixed) of
             Inl e \<Rightarrow> Inl e
           | Inr (r, n) \<Rightarrow> Inr (Str trimmed # r, n)))"

fun trimWhitespace_rows :: "table \<Rightarrow> nat \<Rightarrow> error + (table \<times> nat)" where
  "trimWhitespace_rows [] cellsFixed = Inr ([], cellsFixed)"
| "trimWhitespace_rows (r # rs) cellsFixed =
     (case trimWhitespace_row r cellsFixed of
        Inl e \<Rightarrow> Inl e
      | Inr (r', n) \<Rightarrow>
          (case trimWhitespace_rows rs n of
             Inl e \<Rightarrow> Inl e
           | Inr (rs', m) \<Rightarrow> Inr (r' # rs', m)))"

definition trimWhitespace :: "table \<Rightarrow> error + (table \<times> nat)" where
  "trimWhitespace dat = trimWhitespace_rows dat 0"

subsection \<open>standardizeCase (the same text in csvUtils.ts and part_001)\<close>

text \<open>
  \<open>isNaN(Number(cell))\<close>. \<open>Number\<close> of a string is NaN exactly when the string, with
  white space stripped, is neither empty nor a StrNumericLiteral of ECMA-262 (a signed
  decimal literal, \<open>Infinity\<close>, or an unsigned binary, octal or hexadecimal integer).
  \<open>Number(null)\<close> is 0 and \<open>Number(undefined)\<close> is NaN.
\<close>

definition isDecimalDigit :: "char \<Rightarrow> bool" where
  "isDecimalDigit c = (48 \<le> (of_char c :: nat) \<and> (of_char c :: nat) \<le> 57)"

definition isBinaryDigit :: "char \<Rightarrow> bool" where
  "isBinaryDigit c = (c = CHR ''0'' \<or> c = CHR ''1'')"

definition isOctalDigit :: "char \<Rightarrow> bool" where
  "isOctalDigit c = (48 \<le> (of_char c :: nat) \<and> (of_char c :: nat) \<le> 55)"

definition isHexDigit :: "char \<Rightarrow> bool" where
  "isHexDigit c = (let n = (of_char c :: nat) in
     (48 \<le> n \<and> n \<le> 57) \<or> (65 \<le> n \<and> n \<le> 70) \<or> (97 \<le> n \<and> n \<le> 102))"

definition isSignedInteger :: "string \<Rightarrow> bool" where
  "isSignedInteger s =
     (case s of
        [] \<Rightarrow> False
      | c # r \<Rightarrow>
          if c = CHR ''+'' \<or> c = CHR ''-'' then r \<noteq> [] \<and> list_all isDecimalDigit r
          else list_all isDecimalDigit s)"

definition isOptExponentPart :: "string \<Rightarrow> bool" where
  "isOptExponentPart s =
     (case s of [] \<Rightarrow> True | c # r \<Rightarrow> (c = CHR ''e'' \<or> c = CHR ''E'') \<and> isSignedInteger r)"

definition isStrUnsignedDecimalLiteral :: "string \<Rightarrow> bool" where
  "isStrUnsignedDecimalLiteral s =
     (s = ''Infinity'' \<or>
      (let ds = takeWhile isDecimalDigit s; r = dropWhile isDecimalDigit s in
       if ds \<noteq> [] then
         (case r of
            [] \<Rightarrow> True
          | c # r2 \<Rightarrow>
              if c = CHR ''.'' then isOptExponentPart (dropWhile isDecimalDigit r2)
              else isOptExponentPart r)
       else
         (case r of
            [] \<Rightarrow> False
          | c # r2 \<Rightarrow>
              c = CHR ''.'' \<and> takeWhile isDecimalDigit r2 \<noteq> [] \<and>
              isOptExponentPart (dropWhile isDecimalDigit r2))))"

definition isStrDecimalLiteral :: "string \<Rightarrow> bool" where
  "isStrDecimalLiteral s =
     (case s of
        [] \<Rightarrow> False
      | c # r \<Rightarrow>
          if c = CHR ''+'' \<or> c = CHR ''-'' then isStrUnsignedDecimalLiteral r
          else isStrUnsignedDecimalLiteral s)"

definition isNonDecimalIntegerLiteral :: "string \<Rightarrow> bool" where
  "isNonDecimalIntegerLiteral s =
     (case s of
        c0 # x # ds \<Rightarrow>
          c0 = CHR ''0'' \<and> ds \<noteq> [] \<and>
          (((x = CHR ''b'' \<or> x = CHR ''B'') \<and> list_all isBinaryDigit ds) \<or>
           ((x = CHR ''o'' \<or> x = CHR ''O'') \<and> list_all isOctalDigit ds) \<or>
           ((x = CHR ''x'' \<or> x = CHR ''X'') \<and> list_all isHexDigit ds))
      | _ \<Rightarrow> False)"

definition isStringNumericLiteral :: "string \<Rightarrow> bool" where
  "isStringNumericLiteral s =
     (let t = trim s in t = [] \<or> isStrDecimalLiteral t \<or> isNonDecimalIntegerLiteral t)"

fun isNaN_Number :: "cell \<Rightarrow> bool" where
  "isNaN_Number (Str s) = (\<not> isStringNumericLiteral s)"
| "isNaN_Number Null = False"
| "isNaN_Number Undefined = True"

fun toLowerCaseCell :: "cell \<Rightarrow> error + cell" where
  "toLowerCaseCell (Str s) = Inr (Str (toLowerCase s))"
| "toLowerCaseCell Null = Inl TypeError"
| "toLowerCaseCell Undefined = Inl TypeError"

definition standardizeCase_cell :: "cell \<Rightarrow> error + cell" where
  "standardizeCase_cell c =
     (if isNaN_Number c \<and> c \<noteq> Str [] then toLowerCaseCell c else Inr c)"

definition standardizeCase :: "table \<Rightarrow> string list \<Rightarrow> error + table" where
  "standardizeCase dat hdrs = mapE (\<lambda>row. mapE standardizeCase_cell row) dat"

subsection \<open>removeEmptyRows (a row stays when some cell is non-blank)\<close>

definition nonBlankCell :: "cell \<Rightarrow> error + bool" where
  "nonBlankCell c = (case trimCell c of Inl e \<Rightarrow> Inl e | Inr t \<Rightarrow> Inr (t \<noteq> []))"

definition removeEmptyRows :: "table \<Rightarrow> error + (table \<times> nat)" where
  "removeEmptyRows dat =
     (case filterE (\<lambda>row. someE nonBlankCell row) dat of
        Inl e \<Rightarrow> Inl e
      | Inr filteredData \<Rightarrow> Inr (filteredData, length dat - length filteredData))"

section \<open>The transform library of part_001\<close>

subsection \<open>removeDuplicates (normalized, pipe-joined signature)\<close>

definition normalizedKey :: "row \<Rightarrow> string" where
  "normalizedKey r = join ''|'' (map (\<lambda>c. toLowerCase (trim (orEmpty c))) r)"

text \<open>
  The \<open>for\<close> loop over the index \<open>i\<close>; its state is the map \<open>signatures\<close>, the array
  \<open>uniqueData\<close> and the counter \<open>duplicatesCount\<close>.
\<close>

fun removeDuplicates_loop ::
  "nat \<Rightarrow> table \<Rightarrow> (string \<rightharpoonup> nat) \<times> table \<times> nat \<Rightarrow> (string \<rightharpoonup> nat) \<times> table \<times> nat" where
  "removeDuplicates_loop i [] st = st"
| "removeDuplicates_loop i (row # rest) (signatures, uniqueData, duplicatesCount) =
     (if signatures (normalizedKey row) = None
      then removeDuplicates_loop (i + 1) rest
             (signatures(normalizedKey row \<mapsto> i), uniqueData @ [row], duplicatesCount)
      else removeDuplicates_loop (i + 1) rest
             (signatures, uniqueData, duplicatesCount + 1))"

definition removeDuplicates_part001 :: "table \<Rightarrow> error + (table \<times> nat)" where
  "removeDuplicates_part001 dat =
     (case removeDuplicates_loop 0 dat (Map.empty, [], 0) of
        (signatures, uniqueData, duplicatesCount) \<Rightarrow> Inr (uniqueData, duplicatesCount))"

subsection \<open>trimWhitespace (falsy cells are returned as they are)\<close>

fun trimWhitespace_row_part001 :: "row \<Rightarrow> nat \<Rightarrow> error + (row \<times> nat)" where
  "trimWhitespace_row_part001 [] cellsFixed = Inr ([], cellsFixed)"
| "trimWhitespace_row_part001 (c # cs) cellsFixed =
     (if falsy c then
        (case trimWhitespace_row_part001 cs cellsFixed of
           Inl e \<Rightarrow> Inl e
         | Inr (r, n) \<Rightarrow> Inr (c # r, n))
      else
        (case trimCell c of
           Inl e \<Rightarrow> Inl e
         | Inr trimmed \<Rightarrow>
             (case trimWhitespace_row_part001 cs
                     (if Str trimmed \<noteq> c then cellsFixed + 1 else cellsFixed) of
                Inl e \<Rightarrow> Inl e
              | Inr (r, n) \<Rightarrow> Inr (Str trimmed # r, n))))"

fun trimWhitespace_rows_part001 :: "table \<Rightarrow> nat \<Rightarrow> error + (table \<times> nat)" where
  "trimWhitespace_rows_part001 [] cellsFixed = Inr ([], cellsFixed)"
| "trimWhitespace_rows_part001 (r # rs) cellsFixed =
     (case trimWhitespace_row_part001 r cellsFixed of
        Inl e \<Rightarrow> Inl e
      | Inr (r', n) \<Rightarrow>
          (case trimWhitespace_rows_part001 rs n of
             Inl e \<Rightarrow> Inl e
           | Inr (rs', m) \<Rightarrow> Inr (r' # rs', m)))"

definition trimWhitespace_part001 :: "table \<Rightarrow> error + (table \<times> nat)" where
  "trimWhitespace_part001 dat = trimWhitespace_rows_part001 dat 0"

subsection \<open>removeEmptyRows (a row stays when its first cell is non-blank)\<close>

definition removeEmptyRows_part001 :: "table \<Rightarrow> error + (table \<times> nat)" where
  "removeEmptyRows_part001 dat =
     (let originalLength = length dat;
          filteredData = filter (\<lambda>row. trim (orEmpty (cell0 row)) \<noteq> []) dat in
      Inr (filteredData, originalLength - length filteredData))"

section \<open>The pipeline runner and the state around it\<close>

text \<open>
  The components import the module \<open>@/utils/csvUtils\<close>; the module is a parameter of the
  model, with one instance for each of the two texts of it.
\<close>

record csvUtilsModule =
  mod_parseCSV :: "string \<Rightarrow> error + parsed"
  mod_removeDuplicates :: "table \<Rightarrow> error + (table \<times> nat)"
  mod_trimWhitespace :: "table \<Rightarrow> error + (table \<times> nat)"
  mod_standardizeCase :: "table \<Rightarrow> string list \<Rightarrow> error + table"
  mod_removeEmptyRows :: "table \<Rightarrow> error + (table \<times> nat)"

definition csvUtils_ts :: csvUtilsModule where
  "csvUtils_ts =
     \<lparr>mod_parseCSV = parseCSV,
      mod_removeDuplicates = removeDuplicates,
      mod_trimWhitespace = trimWhitespace,
      mod_standardizeCase = standardizeCase,
      mod_removeEmptyRows = removeEmptyRows\<rparr>"

definition csvUtils_part001 :: csvUtilsModule where
  "csvUtils_part001 =
     \<lparr>mod_parseCSV = parseCSV_part001,
      mod_removeDuplicates = removeDuplicates_part001,
      mod_trimWhitespace = trimWhitespace_part001,
      mod_standardizeCase = standardizeCase,
      mod_removeEmptyRows = removeEmptyRows_part001\<rparr>"

record cleaningOptions =
  optRemoveDuplicates :: bool
  optTrimWhitespace :: bool
  optStandardizeCase :: bool
  optRemoveEmptyRows :: bool

definition defaultOptions :: cleaningOptions where
  "defaultOptions =
     \<lparr>optRemoveDuplicates = True, optTrimWhitespace = True,
      optStandardizeCase = False, optRemoveEmptyRows = True\<rparr>"

datatype optionKey = RemoveDuplicates | TrimWhitespace | StandardizeCase | RemoveEmptyRows

fun toggleOption :: "optionKey \<Rightarrow> cleaningOptions \<Rightarrow> cleaningOptions" where
  "toggleOption RemoveDuplicates opts = opts\<lparr>optRemoveDuplicates := \<not> optRemoveDuplicates opts\<rparr>"
| "toggleOption TrimWhitespace opts = opts\<lparr>optTrimWhitespace := \<not> optTrimWhitespace opts\<rparr>"
| "toggleOption StandardizeCase opts = opts\<lparr>optStandardizeCase := \<not> optStandardizeCase opts\<rparr>"
| "toggleOption RemoveEmptyRows opts = opts\<lparr>optRemoveEmptyRows := \<not> optRemoveEmptyRows opts\<rparr>"

record cleaningStats =
  duplicatesRemoved :: nat
  whitespaceFixed :: nat
  emptyRowsRemoved :: nat

text \<open>
  The statements of the \<open>try\<close> block of \<open>cleanData\<close> up to, and without, the two
  publishing calls \<open>setStats\<close> and \<open>onDataCleaned\<close>. An exception of a transform leaves
  the block at once.
\<close>

definition cleanData_try ::
  "csvUtilsModule \<Rightarrow> cleaningOptions \<Rightarrow> table \<Rightarrow> string list \<Rightarrow> error + (table \<times> cleaningStats)" where
  "cleanData_try m opts dat hdrs =
     (let cleanedData = dat;
          statsCopy = \<lparr>duplicatesRemoved = 0, whitespaceFixed = 0, emptyRowsRemoved = 0\<rparr> in
      (case (if optRemoveEmptyRows opts
             then (case mod_removeEmptyRows m cleanedData of
                     Inl e \<Rightarrow> Inl e
                   | Inr (noEmptyRows, count) \<Rightarrow>
                       Inr (noEmptyRows, statsCopy\<lparr>emptyRowsRemoved := count\<rparr>))
             else Inr (cleanedData, statsCopy)) of
         Inl e \<Rightarrow> Inl e
       | Inr (cleanedData, statsCopy) \<Rightarrow>
      (case (if optRemoveDuplicates opts
             then (case mod_removeDuplicates m cleanedData of
                     Inl e \<Rightarrow> Inl e
                   | Inr (noDuplicates, count) \<Rightarrow>
                       Inr (noDuplicates, statsCopy\<lparr>duplicatesRemoved := count\<rparr>))
             else Inr (cleanedData, statsCopy)) of
         Inl e \<Rightarrow> Inl e
       | Inr (cleanedData, statsCopy) \<Rightarrow>
      (case (if optTrimWhitespace opts
             then (case mod_trimWhitespace m cleanedData of
                     Inl e \<Rightarrow> Inl e
                   | Inr (trimmed, count) \<Rightarrow>
                       Inr (trimmed, statsCopy\<lparr>whitespaceFixed := count\<rparr>))
             else Inr (cleanedData, statsCopy)) of
         Inl e \<Rightarrow> Inl e
       | Inr (cleanedData, statsCopy) \<Rightarrow>
      (case (if optStandardizeCase opts
             then mod_standardizeCase m cleanedData hdrs
             else Inr cleanedData) of
         Inl e \<Rightarrow> Inl e
       | Inr cleanedData \<Rightarrow> Inr (cleanedData, statsCopy))))))"

text \<open>
  The state around the runner: the current and the original table and the headers of
  the page \<open>Index\<close> (part_002), the options and the statistics of the component
  \<open>CleaningOptions\<close> (part_000), and the toasts shown so far. Tab selection and file
  name play no part in cleaning and are left out. The options and the statistics live in
  the component: the record is the state while the component is rendered, which on the
  page is while the current table is non-empty.
\<close>

datatype toast =
    FileUploaded nat nat
  | ErrorParsingCSV error
  | DataCleaned nat
  | DataCleaningComplete nat nat
  | ErrorCleaningData error

record appState =
  csvData :: table
  originalData :: table
  csvHeaders :: "string list"
  options :: cleaningOptions
  stats :: "cleaningStats option"
  isProcessing :: bool
  toasts :: "toast list"

definition initialState :: appState where
  "initialState =
     \<lparr>csvData = [], originalData = [], csvHeaders = [], options = defaultOptions,
      stats = None, isProcessing = False, toasts = []\<rparr>"

text \<open>A parsed table of strings, seen as a table of run-time values.\<close>

definition tableOf :: "string list list \<Rightarrow> table" where
  "tableOf t = map (map Str) t"

definition handleFileUploaded :: "string list list \<Rightarrow> string list \<Rightarrow> appState \<Rightarrow> appState" where
  "handleFileUploaded d h s =
     s\<lparr>csvData := tableOf d, originalData := tableOf d, csvHeaders := h,
       toasts := toasts s @ [FileUploaded (length d) (length h)]\<rparr>"

text \<open>The \<open>onload\<close> handler of \<open>processFile\<close> in FileUpload.tsx.\<close>

definition fileLoaded :: "csvUtilsModule \<Rightarrow> string \<Rightarrow> appState \<Rightarrow> appState" where
  "fileLoaded m content s =
     (case mod_parseCSV m content of
        Inr p \<Rightarrow> handleFileUploaded (data p) (headers p) s
      | Inl e \<Rightarrow> s\<lparr>toasts := toasts s @ [ErrorParsingCSV e]\<rparr>)"

definition handleDataCleaned :: "table \<Rightarrow> appState \<Rightarrow> appState" where
  "handleDataCleaned cleanedData s =
     s\<lparr>csvData := cleanedData, toasts := toasts s @ [DataCleaned (length cleanedData)]\<rparr>"

text \<open>
  \<open>cleanData\<close> with its timer callback run to the end. The component is rendered with
  \<open>data = originalData\<close>. Nothing happens on an empty table. Otherwise the \<open>try\<close> block
  runs: on success the statistics and the table are published and a toast is shown; on an
  exception only the error toast is shown; \<open>finally\<close> resets \<open>isProcessing\<close>.
\<close>

definition cleanData :: "csvUtilsModule \<Rightarrow> appState \<Rightarrow> appState" where
  "cleanData m s =
     (if length (originalData s) = 0 then s
      else (case cleanData_try m (options s) (originalData s) (csvHeaders s) of
              Inr (cleanedData, statsCopy) \<Rightarrow>
                (handleDataCleaned cleanedData (s\<lparr>stats := Some statsCopy\<rparr>))
                  \<lparr>toasts := toasts (handleDataCleaned cleanedData (s\<lparr>stats := Some statsCopy\<rparr>)) @
                     [DataCleaningComplete (duplicatesRemoved statsCopy) (emptyRowsRemoved statsCopy)],
                   isProcessing := False\<rparr>
            | Inl e \<Rightarrow>
                s\<lparr>toasts := toasts s @ [ErrorCleaningData e], isProcessing := False\<rparr>))"

text \<open>
  The same function read on its own, as the list of calls it makes on its surroundings,
  in order: \<open>setIsProcessing\<close>, \<open>setStats\<close>, the callback \<open>onDataCleaned\<close> and \<open>toast\<close>.
  This reading does not depend on where the component is rendered. The page renders it
  only while the current table is non-empty (part_002, line 95), and with it the
  statistics it holds; \<open>cleanData\<close> above is these calls carried out on the state while
  the component is rendered (lemma \<open>cleanData_is_its_calls\<close>).
\<close>

datatype call =
    SetIsProcessing bool
  | SetStats cleaningStats
  | OnDataCleaned table
  | ShowToast toast

definition cleanData_calls ::
  "csvUtilsModule \<Rightarrow> cleaningOptions \<Rightarrow> table \<Rightarrow> string list \<Rightarrow> call list" where
  "cleanData_calls m opts dat hdrs =
     (if length dat = 0 then []
      else SetIsProcessing True #
           (case cleanData_try m opts dat hdrs of
              Inr (cleanedData, statsCopy) \<Rightarrow>
                [SetStats statsCopy, OnDataCleaned cleanedData,
                 ShowToast (DataCleaningComplete (duplicatesRemoved statsCopy)
                                                 (emptyRowsRemoved statsCopy))]
            | Inl e \<Rightarrow> [ShowToast (ErrorCleaningData e)]) @
           [SetIsProcessing False])"

fun applyCall :: "call \<Rightarrow> appState \<Rightarrow> appState" where
  "applyCall (SetIsProcessing b) s = s\<lparr>isProcessing := b\<rparr>"
| "applyCall (SetStats st) s = s\<lparr>stats := Some st\<rparr>"
| "applyCall (OnDataCleaned d) s = handleDataCleaned d s"
| "applyCall (ShowToast t) s = s\<lparr>toasts := toasts s @ [t]\<rparr>"

section \<open>Notions used to state the properties\<close>

text \<open>Row \<open>i\<close> is the first row of the table that carries its signature.\<close>

definition firstOfSignature :: "table \<Rightarrow> nat \<Rightarrow> bool" where
  "firstOfSignature dat i = (\<forall>j<i. normalizedKey (dat ! j) \<noteq> normalizedKey (dat ! i))"

text \<open>What \<open>trimWhitespace\<close> of part_001 makes of a cell, and whether it counts the cell.\<close>

fun trimmedCell :: "cell \<Rightarrow> cell" where
  "trimmedCell (Str s) = Str (trim s)"
| "trimmedCell Null = Null"
| "trimmedCell Undefined = Undefined"

fun trimChanges :: "cell \<Rightarrow> bool" where
  "trimChanges (Str s) = (trim s \<noteq> s)"
| "trimChanges Null = False"
| "trimChanges Undefined = False"

text \<open>Policy (a): every cell of the row is the empty string after trimming.\<close>

definition blankRow :: "string list \<Rightarrow> bool" where
  "blankRow r = list_all (\<lambda>c. trim c = []) r"


text \<open>The cell \<open>standardizeCase\<close> writes for a string cell.\<close>

definition standardizedCell :: "string \<Rightarrow> string" where
  "standardizedCell s = (if s \<noteq> [] \<and> isNaN_Number (Str s) then toLowerCase s else s)"

text \<open>
  A module whose transforms return, and return a table of strings, on every table of
  strings.
\<close>

definition stagesTotal :: "csvUtilsModule \<Rightarrow> bool" where
  "stagesTotal m =
     ((\<forall>dat. stringTable dat \<longrightarrow>
          (\<exists>out n. mod_removeEmptyRows m dat = Inr (out, n) \<and> stringTable out)) \<and>
      (\<forall>dat. stringTable dat \<longrightarrow>
          (\<exists>out n. mod_removeDuplicates m dat = Inr (out, n) \<and> stringTable out)) \<and>
      (\<forall>dat. stringTable dat \<longrightarrow>
          (\<exists>out n. mod_trimWhitespace m dat = Inr (out, n) \<and> stringTable out)) \<and>
      (\<forall>dat hdrs. stringTable dat \<longrightarrow> (\<exists>out. mod_standardizeCase m dat hdrs = Inr out)))"

text \<open>The concrete inputs of the examples.\<close>

definition noOptions :: cleaningOptions where
  "noOptions =
     \<lparr>optRemoveDuplicates = False, optTrimWhitespace = False,
      optStandardizeCase = False, optRemoveEmptyRows = False\<rparr>"

definition allOptions :: cleaningOptions where
  "allOptions = toggleOption StandardizeCase defaultOptions"

definition endToEndText :: string where
  "endToEndText =
     ''Name,City'' @ [LF] @ ''Alice, NYC'' @ [LF] @ ''Alice,NYC'' @ [LF] @ '', '' @ [LF]"

definition uploadedState :: "csvUtilsModule \<Rightarrow> appState" where
  "uploadedState m = (fileLoaded m endToEndText initialState)\<lparr>options := allOptions\<rparr>"

definition endToEnd :: "csvUtilsModule \<Rightarrow> appState" where
  "endToEnd m = cleanData m (uploadedState m)"

definition failingState :: appState where
  "failingState =
     initialState\<lparr>csvData := [[Str ''x'', Undefined]], originalData := [[Str ''x'', Undefined]],
                  options := allOptions\<rparr>"

section \<open>Properties of removeDuplicates\<close>

lemma removeDuplicates_loop_append:
  "removeDuplicates_loop i (xs @ ys) st =
     removeDuplicates_loop (i + length xs) ys (removeDuplicates_loop i xs st)"
proof (induction xs arbitrary: i st)
  case Nil
  then show ?case by simp
next
  case (Cons x xs)
  obtain sigs uniq cnt where st: "st = (sigs, uniq, cnt)" by (cases st) auto
  show ?case using Cons.IH by (simp add: st)
qed

lemma firstOfSignature_append:
  "i < length dat \<Longrightarrow> firstOfSignature (dat @ [row]) i = firstOfSignature dat i"
  by (simp add: firstOfSignature_def nth_append)

lemma firstOfSignature_last:
  "firstOfSignature (dat @ [row]) (length dat) = (normalizedKey row \<notin> normalizedKey ` set dat)"
proof -
  have "(\<forall>j<length dat. normalizedKey (dat ! j) \<noteq> normalizedKey row) =
        (\<forall>r\<in>set dat. normalizedKey r \<noteq> normalizedKey row)"
    by (metis in_set_conv_nth)
  moreover have "firstOfSignature (dat @ [row]) (length dat) =
        (\<forall>j<length dat. normalizedKey (dat ! j) \<noteq> normalizedKey row)"
    by (simp add: firstOfSignature_def nth_append)
  moreover have "(normalizedKey row \<notin> normalizedKey ` set dat) =
        (\<forall>r\<in>set dat. normalizedKey r \<noteq> normalizedKey row)"
    by (metis image_iff)
  ultimately show ?thesis by simp
qed

text \<open>
  The loop invariant, by induction on the rows read so far: the keys of \<open>signatures\<close>
  are the signatures read, \<open>uniqueData\<close> holds the first row of each, in order, and
  \<open>duplicatesCount\<close> counts the others.
\<close>

lemma removeDuplicates_loop_invariant:
  "removeDuplicates_loop 0 dat (Map.empty, [], 0) = (sigs, uniq, cnt) \<Longrightarrow>
     dom sigs = normalizedKey ` set dat \<and>
     uniq = map (\<lambda>i. dat ! i) (filter (firstOfSignature dat) [0..<length dat]) \<and>
     cnt = length (filter (\<lambda>i. \<not> firstOfSignature dat i) [0..<length dat]) \<and>
     subseq uniq dat"
proof (induction dat arbitrary: sigs uniq cnt rule: rev_induct)
  case Nil
  then show ?case by simp
next
  case (snoc row dat)
  obtain sigs0 uniq0 cnt0 where
    st: "removeDuplicates_loop 0 dat (Map.empty, [], 0) = (sigs0, uniq0, cnt0)"
    by (cases "removeDuplicates_loop 0 dat (Map.empty, [], 0)") auto
  note ih = snoc.IH [OF st]
  note ih1 = ih [THEN conjunct1]
  note ih2 = ih [THEN conjunct2, THEN conjunct1]
  note ih3 = ih [THEN conjunct2, THEN conjunct2, THEN conjunct1]
  note ih4 = ih [THEN conjunct2, THEN conjunct2, THEN conjunct2]
  have f1: "filter (firstOfSignature (dat @ [row])) [0..<length dat] =
            filter (firstOfSignature dat) [0..<length dat]"
    by (rule filter_cong) (simp_all add: firstOfSignature_append)
  have f2: "filter (\<lambda>i. \<not> firstOfSignature (dat @ [row]) i) [0..<length dat] =
            filter (\<lambda>i. \<not> firstOfSignature dat i) [0..<length dat]"
    by (rule filter_cong) (simp_all add: firstOfSignature_append)
  have m1: "map (\<lambda>i. (dat @ [row]) ! i) (filter (firstOfSignature dat) [0..<length dat]) =
            map (\<lambda>i. dat ! i) (filter (firstOfSignature dat) [0..<length dat])"
    by (rule map_cong) (simp_all add: nth_append)
  have step: "removeDuplicates_loop 0 (dat @ [row]) (Map.empty, [], 0) =
        (if sigs0 (normalizedKey row) = None
         then (sigs0(normalizedKey row \<mapsto> length dat), uniq0 @ [row], cnt0)
         else (sigs0, uniq0, cnt0 + 1))"
    by (simp add: removeDuplicates_loop_append st)
  have key: "sigs0 (normalizedKey row) = None \<longleftrightarrow> normalizedKey row \<notin> normalizedKey ` set dat"
    using ih1 by (metis domIff)
  show ?case
  proof (cases "sigs0 (normalizedKey row) = None")
    case True
    with step snoc.prems have eq: "sigs = sigs0(normalizedKey row \<mapsto> length dat)"
      "uniq = uniq0 @ [row]" "cnt = cnt0" by simp_all
    from True key have fl: "firstOfSignature (dat @ [row]) (length dat)"
      by (simp add: firstOfSignature_last)
    have c1: "dom sigs = normalizedKey ` set (dat @ [row])"
      by (simp add: eq ih1)
    have c2: "uniq = map (\<lambda>i. (dat @ [row]) ! i)
                 (filter (firstOfSignature (dat @ [row])) [0..<length (dat @ [row])])"
      by (simp add: eq fl f1 m1 ih2)
    have c3: "cnt = length (filter (\<lambda>i. \<not> firstOfSignature (dat @ [row]) i)
                 [0..<length (dat @ [row])])"
      by (simp add: eq fl f2 ih3)
    have c4: "subseq uniq (dat @ [row])"
      using ih4 by (simp add: eq)
    from c1 c2 c3 c4 show ?thesis by blast
  next
    case False
    with step snoc.prems have eq: "sigs = sigs0" "uniq = uniq0" "cnt = cnt0 + 1" by simp_all
    from False key have fl: "\<not> firstOfSignature (dat @ [row]) (length dat)"
      by (simp add: firstOfSignature_last)
    from False key have "normalizedKey row \<in> normalizedKey ` set dat" by simp
    then have ins: "insert (normalizedKey row) (normalizedKey ` set dat) = normalizedKey ` set dat"
      by auto
    have c1: "dom sigs = normalizedKey ` set (dat @ [row])"
      by (simp add: eq ih1 ins)
    have c2: "uniq = map (\<lambda>i. (dat @ [row]) ! i)
                 (filter (firstOfSignature (dat @ [row])) [0..<length (dat @ [row])])"
      by (simp add: eq fl f1 m1 ih2)
    have c3: "cnt = length (filter (\<lambda>i. \<not> firstOfSignature (dat @ [row]) i)
                 [0..<length (dat @ [row])])"
      by (simp add: eq fl f2 ih3)
    have c4: "subseq uniq (dat @ [row])"
      using ih4 by (simp add: eq subseq_rev_drop_many)
    from c1 c2 c3 c4 show ?thesis by blast
  qed
qed

lemma removeDuplicates_part001_closed_form:
  "removeDuplicates_part001 dat =
     Inr (map (\<lambda>i. dat ! i) (filter (firstOfSignature dat) [0..<length dat]),
          length (filter (\<lambda>i. \<not> firstOfSignature dat i) [0..<length dat]))"
proof -
  obtain sigs uniq cnt where
    st: "removeDuplicates_loop 0 dat (Map.empty, [], 0) = (sigs, uniq, cnt)"
    by (cases "removeDuplicates_loop 0 dat (Map.empty, [], 0)") auto
  from removeDuplicates_loop_invariant [OF st] show ?thesis
    by (simp add: removeDuplicates_part001_def st)
qed

lemma removeDuplicates_part001_subseq:
  "\<exists>out n. removeDuplicates_part001 dat = Inr (out, n) \<and> subseq out dat"
proof -
  obtain sigs uniq cnt where
    st: "removeDuplicates_loop 0 dat (Map.empty, [], 0) = (sigs, uniq, cnt)"
    by (cases "removeDuplicates_loop 0 dat (Map.empty, [], 0)") auto
  from removeDuplicates_loop_invariant [OF st] have "subseq uniq dat"
    by blast
  then show ?thesis
    by (simp add: removeDuplicates_part001_def st)
qed

lemma normalizedKey_strings:
  "normalizedKey (map Str r) = join ''|'' (map (\<lambda>s. toLowerCase (trim s)) r)"
  by (simp add: normalizedKey_def comp_def)

text \<open>
  \<open>removeDuplicates\<close> of part_001 compares rows by their signature, the cells trimmed,
  lowercased and joined with a pipe. Its output is, in input order and unchanged, exactly
  the rows that are the first of their signature; every later row of a signature is
  dropped; \<open>count\<close> is the number of dropped rows, so output length plus \<open>count\<close> is the
  input length.
\<close>

lemma removeDuplicates_part001_keeps_first_of_signature:
  "removeDuplicates_part001 dat =
     Inr (map (\<lambda>i. dat ! i) (filter (firstOfSignature dat) [0..<length dat]),
          length (filter (\<lambda>i. \<not> firstOfSignature dat i) [0..<length dat]))
   \<and> length (filter (firstOfSignature dat) [0..<length dat]) +
       length (filter (\<lambda>i. \<not> firstOfSignature dat i) [0..<length dat]) = length dat
   \<and> normalizedKey (map Str r) = join ''|'' (map (\<lambda>s. toLowerCase (trim s)) r)"
proof -
  have a: "length (filter (firstOfSignature dat) [0..<length dat]) +
       length (filter (\<lambda>i. \<not> firstOfSignature dat i) [0..<length dat]) = length dat"
    using sum_length_filter_compl [of "firstOfSignature dat" "[0..<length dat]"] by simp
  from removeDuplicates_part001_closed_form [of dat] a normalizedKey_strings [of r]
  show ?thesis by blast
qed

lemma removeDuplicates_part001_keeps_first_of_signature_example:
  "removeDuplicates_part001 [[Str '' x'', Null], [Str ''X '', Str ''''], [Str ''y'']] =
     Inr ([[Str '' x'', Null], [Str ''y'']], 1)"
proof -
  have a: "map (\<lambda>i. [[Str '' x'', Null], [Str ''X '', Str ''''], [Str ''y'']] ! i)
             (filter (firstOfSignature [[Str '' x'', Null], [Str ''X '', Str ''''], [Str ''y'']])
                [0..<length [[Str '' x'', Null], [Str ''X '', Str ''''], [Str ''y'']]]) =
           [[Str '' x'', Null], [Str ''y'']]"
    by code_simp
  have b: "length (filter (\<lambda>i. \<not> firstOfSignature [[Str '' x'', Null], [Str ''X '', Str ''''], [Str ''y'']] i)
                [0..<length [[Str '' x'', Null], [Str ''X '', Str ''''], [Str ''y'']]]) = 1"
    by code_simp
  from removeDuplicates_part001_keeps_first_of_signature
         [of "[[Str '' x'', Null], [Str ''X '', Str ''''], [Str ''y'']]" "[]"]
  show ?thesis unfolding a b by simp
qed

text \<open>
  C1. The normalized signature is what \<open>removeDuplicates\<close> of part_001 compares; its
  header comment reads "Fixed to correctly identify duplicates by column values, not by
  exact match". \<open>removeDuplicates\<close> of csvUtils.ts, the module the components import,
  still compares the exact JSON text of the rows: on \<open>[["A","1"],["a","1"],["B","2"]]\<close>
  it keeps all three rows and returns count 0, where part_001 returns
  \<open>[["A","1"],["B","2"]]\<close> and count 1.
\<close>

theorem removeDuplicates_csvUtils_keeps_case_variants:
  "removeDuplicates (tableOf [[''A'', ''1''], [''a'', ''1''], [''B'', ''2'']]) =
     Inr (tableOf [[''A'', ''1''], [''a'', ''1''], [''B'', ''2'']], 0) \<and>
   removeDuplicates_part001 (tableOf [[''A'', ''1''], [''a'', ''1''], [''B'', ''2'']]) =
     Inr (tableOf [[''A'', ''1''], [''B'', ''2'']], 1)"
  by code_simp

section \<open>Tables of strings and total callbacks\<close>

lemma mapE_total: "(\<And>x. x \<in> set xs \<Longrightarrow> f x = Inr (g x)) \<Longrightarrow> mapE f xs = Inr (map g xs)"
  by (induction xs) simp_all

lemma filterE_total:
  "(\<And>x. x \<in> set xs \<Longrightarrow> p x = Inr (q x)) \<Longrightarrow> filterE p xs = Inr (filter q xs)"
  by (induction xs) simp_all

lemma subseq_set_subset: "subseq xs ys \<Longrightarrow> set xs \<subseteq> set ys"
  by (auto elim: list_emb_set)

lemma stringTable_tableOf: "stringTable (tableOf t)"
  by (simp add: stringTable_def stringRow_def tableOf_def list_all_iff)

lemma stringTable_is_tableOf: "stringTable dat \<Longrightarrow> \<exists>t. dat = tableOf t"
proof -
  assume a: "stringTable dat"
  have c: "Str (orEmpty c) = c" if "isStr c" for c
    using that by (cases c) simp_all
  have "map (map Str) (map (map orEmpty) dat) = dat"
    using a by (auto simp: stringTable_def stringRow_def list_all_iff c intro!: map_idI)
  then show ?thesis unfolding tableOf_def by metis
qed

lemma stringTable_subseq: "subseq out dat \<Longrightarrow> stringTable dat \<Longrightarrow> stringTable out"
  using subseq_set_subset [of out dat] by (auto simp: stringTable_def list_all_iff)

section \<open>Properties of trimWhitespace\<close>

lemma trim_Nil: "trim [] = []"
  by (simp add: trim_def)

lemma trimWhitespace_row_part001_closed_form:
  "trimWhitespace_row_part001 r n = Inr (map trimmedCell r, n + length (filter trimChanges r))"
proof (induction r arbitrary: n)
  case Nil
  then show ?case by simp
next
  case (Cons c cs)
  show ?case
  proof (cases c)
    case (Str s)
    then show ?thesis by (cases "s = []") (simp_all add: Cons.IH trim_Nil)
  next
    case Null
    then show ?thesis by (simp add: Cons.IH)
  next
    case Undefined
    then show ?thesis by (simp add: Cons.IH)
  qed
qed

lemma trimWhitespace_rows_part001_closed_form:
  "trimWhitespace_rows_part001 t n =
     Inr (map (map trimmedCell) t, n + length (filter trimChanges (concat t)))"
  by (induction t arbitrary: n) (simp_all add: trimWhitespace_row_part001_closed_form)

lemma trimWhitespace_part001_closed_form:
  "trimWhitespace_part001 dat =
     Inr (map (map trimmedCell) dat, length (filter trimChanges (concat dat)))"
  by (simp add: trimWhitespace_part001_def trimWhitespace_rows_part001_closed_form)

lemma trimmedCell_strings: "map (map trimmedCell) (tableOf t) = tableOf (map (map trim) t)"
  by (simp add: tableOf_def comp_def)

lemma trimWhitespace_row_strings:
  "trimWhitespace_row (map Str r) n =
     Inr (map (\<lambda>s. Str (trim s)) r, n + length (filter (\<lambda>s. trim s \<noteq> s) r))"
  by (induction r arbitrary: n) simp_all

lemma trimWhitespace_rows_strings:
  "trimWhitespace_rows (tableOf t) n =
     Inr (tableOf (map (map trim) t), n + length (filter (\<lambda>s. trim s \<noteq> s) (concat t)))"
  by (induction t arbitrary: n) (simp_all add: tableOf_def trimWhitespace_row_strings comp_def)

lemma trimWhitespace_strings:
  "trimWhitespace (tableOf t) =
     Inr (tableOf (map (map trim) t), length (filter (\<lambda>s. trim s \<noteq> s) (concat t)))"
  by (simp add: trimWhitespace_def trimWhitespace_rows_strings)

text \<open>
  \<open>trimWhitespace\<close> of csvUtils.ts has no guard: it calls \<open>cell.trim()\<close> on every cell,
  so a table with a cell that is not a string makes it throw.
\<close>

lemma error_is_TypeError: "(e :: error) = TypeError"
  by (cases e) simp

lemma trimWhitespace_row_throws:
  "\<not> stringRow r \<Longrightarrow> trimWhitespace_row r n = Inl TypeError"
proof (induction r arbitrary: n)
  case Nil
  then show ?case by (simp add: stringRow_def)
next
  case (Cons c cs)
  show ?case
  proof (cases c)
    case (Str s)
    with Cons.prems have "\<not> stringRow cs" by (simp add: stringRow_def)
    from Cons.IH [OF this] Str show ?thesis by simp
  next
    case Null
    then show ?thesis by simp
  next
    case Undefined
    then show ?thesis by simp
  qed
qed

lemma trimWhitespace_rows_throws:
  "\<not> stringTable t \<Longrightarrow> trimWhitespace_rows t n = Inl TypeError"
proof (induction t arbitrary: n)
  case Nil
  then show ?case by (simp add: stringTable_def)
next
  case (Cons r rs)
  show ?case
  proof (cases "stringRow r")
    case False
    then show ?thesis by (simp add: trimWhitespace_row_throws)
  next
    case True
    with Cons.prems have "\<not> stringTable rs" by (simp add: stringTable_def)
    from Cons.IH [OF this] show ?thesis
      by (auto split: sum.splits prod.splits intro: error_is_TypeError)
  qed
qed

lemma trimWhitespace_throws_without_guard:
  "\<not> stringTable dat \<Longrightarrow> trimWhitespace dat = Inl TypeError"
  by (simp add: trimWhitespace_def trimWhitespace_rows_throws)

text \<open>
  C6, counterexample. \<open>trimWhitespace\<close> of csvUtils.ts does not pass a \<open>null\<close> or
  \<open>undefined\<close> cell through: it throws a TypeError on it.
\<close>

theorem trimWhitespace_csvUtils_throws_on_null:
  "trimWhitespace [[Null]] = Inl TypeError \<and> trimWhitespace [[Undefined]] = Inl TypeError"
  by (simp add: trimWhitespace_def)

text \<open>
  C6, amended. \<open>trimWhitespace\<close> of part_001 returns, on every table, the table with each
  string cell trimmed and each \<open>null\<close> or \<open>undefined\<close> cell as it was; \<open>count\<close> is the
  number of cells, over all rows, whose trimmed form differs from the cell; a \<open>null\<close> or
  \<open>undefined\<close> cell is never counted. \<open>trimWhitespace\<close> of csvUtils.ts does the same on
  every table of strings, the tables of its declared type; it has no guard, and on every
  table with a \<open>null\<close> or \<open>undefined\<close> cell it throws a TypeError. On \<open>[[" x ", "y"]]\<close>
  both return \<open>[["x","y"]]\<close> and count 1.
\<close>

theorem trimWhitespace_trims_and_counts_cells:
  "trimWhitespace_part001 dat =
     Inr (map (map trimmedCell) dat, length (filter trimChanges (concat dat)))
   \<and> trimmedCell Null = Null \<and> trimmedCell Undefined = Undefined
   \<and> \<not> trimChanges Null \<and> \<not> trimChanges Undefined
   \<and> trimmedCell (Str s) = Str (trim s) \<and> trimChanges (Str s) = (trim s \<noteq> s)
   \<and> trimWhitespace (tableOf t) =
       Inr (tableOf (map (map trim) t), length (filter (\<lambda>c. trim c \<noteq> c) (concat t)))
   \<and> (\<not> stringTable dat \<longrightarrow> trimWhitespace dat = Inl TypeError)
   \<and> trimWhitespace_part001 (tableOf [['' x '', ''y'']]) = Inr (tableOf [[''x'', ''y'']], 1)
   \<and> trimWhitespace (tableOf [['' x '', ''y'']]) = Inr (tableOf [[''x'', ''y'']], 1)"
proof -
  have a: "trimWhitespace_part001 (tableOf [['' x '', ''y'']]) = Inr (tableOf [[''x'', ''y'']], 1)"
    by code_simp
  have b: "trimWhitespace (tableOf [['' x '', ''y'']]) = Inr (tableOf [[''x'', ''y'']], 1)"
    by code_simp
  from trimWhitespace_part001_closed_form [of dat] trimWhitespace_strings [of t]
       trimWhitespace_throws_without_guard [of dat] a b
  show ?thesis by simp
qed

theorem trimWhitespace_trims_and_counts_cells_witness:
  "trimWhitespace_part001 [[Null, Str '' x '', Undefined], [Str '' a'', Str ''b '', Str ''c'']] =
     Inr ([[Null, Str ''x'', Undefined], [Str ''a'', Str ''b'', Str ''c'']], 3) \<and>
   trimWhitespace [[Null, Str '' x '', Undefined], [Str '' a'', Str ''b '', Str ''c'']] =
     Inl TypeError \<and>
   trimWhitespace (tableOf [['' a'', ''b '', ''c''], ['' '']]) =
     Inr (tableOf [[''a'', ''b'', ''c''], ['''']], 3)"
proof -
  have a: "map (map trimmedCell)
             [[Null, Str '' x '', Undefined], [Str '' a'', Str ''b '', Str ''c'']] =
           [[Null, Str ''x'', Undefined], [Str ''a'', Str ''b'', Str ''c'']]"
    by code_simp
  have b: "length (filter trimChanges
             (concat [[Null, Str '' x '', Undefined], [Str '' a'', Str ''b '', Str ''c'']])) = 3"
    by code_simp
  have c: "\<not> stringTable [[Null, Str '' x '', Undefined], [Str '' a'', Str ''b '', Str ''c'']]"
    by code_simp
  have d: "map (map trim) [['' a'', ''b '', ''c''], ['' '']] = [[''a'', ''b'', ''c''], ['''']]"
    by code_simp
  have e: "length (filter (\<lambda>c. trim c \<noteq> c) (concat [['' a'', ''b '', ''c''], ['' '']])) = 3"
    by code_simp
  from trimWhitespace_trims_and_counts_cells
         [of "[[Null, Str '' x '', Undefined], [Str '' a'', Str ''b '', Str ''c'']]" "[]"
             "[['' a'', ''b '', ''c''], ['' '']]"] c
  show ?thesis unfolding a b d e by simp
qed

section \<open>Properties of removeEmptyRows\<close>

lemma someE_nonBlankCell_strings:
  "someE nonBlankCell (map Str r) = Inr (\<not> blankRow r)"
  by (induction r) (simp_all add: blankRow_def nonBlankCell_def)

lemma removeEmptyRows_strings:
  "removeEmptyRows (tableOf t) =
     Inr (tableOf (filter (\<lambda>r. \<not> blankRow r) t), length (filter blankRow t))"
proof -
  have f: "filterE (\<lambda>row. someE nonBlankCell row) (tableOf t) =
           Inr (filter (\<lambda>row. \<not> blankRow (map orEmpty row)) (tableOf t))"
    by (rule filterE_total) (auto simp: tableOf_def someE_nonBlankCell_strings comp_def)
  have g: "filter (\<lambda>row. \<not> blankRow (map orEmpty row)) (tableOf t) =
           tableOf (filter (\<lambda>r. \<not> blankRow r) t)"
    by (simp add: tableOf_def filter_map comp_def)
  have h: "length t - length (filter (\<lambda>r. \<not> blankRow r) t) = length (filter blankRow t)"
    using sum_length_filter_compl [of blankRow t] by simp
  show ?thesis
    by (simp add: removeEmptyRows_def f g) (simp add: tableOf_def h)
qed

lemma removeEmptyRows_part001_subseq:
  "\<exists>out n. removeEmptyRows_part001 dat = Inr (out, n) \<and> subseq out dat"
  by (simp add: removeEmptyRows_part001_def Let_def)

text \<open>
  \<open>removeEmptyRows\<close> of csvUtils.ts follows policy (a): on every table of strings it
  removes exactly the rows all of whose cells are empty after trimming, returns the other
  rows unchanged and in order, and \<open>count\<close> is the number of rows removed. On
  \<open>[["",""],["x","y"]]\<close> it returns \<open>[["x","y"]]\<close> and count 1.
\<close>

lemma removeEmptyRows_removes_exactly_blank_rows:
  "removeEmptyRows (tableOf t) =
     Inr (tableOf (filter (\<lambda>r. \<not> blankRow r) t), length (filter blankRow t))
   \<and> blankRow r = (\<forall>c \<in> set r. trim c = [])
   \<and> removeEmptyRows (tableOf [['''', ''''], [''x'', ''y'']]) = Inr (tableOf [[''x'', ''y'']], 1)"
proof -
  have "removeEmptyRows (tableOf [['''', ''''], [''x'', ''y'']]) = Inr (tableOf [[''x'', ''y'']], 1)"
    by code_simp
  with removeEmptyRows_strings [of t] show ?thesis
    by (simp add: blankRow_def list_all_iff)
qed

lemma removeEmptyRows_removes_exactly_blank_rows_example:
  "removeEmptyRows (tableOf [['' '', ''''], ['''', ''x''], [], [''y'']]) =
     Inr (tableOf [['''', ''x''], [''y'']], 2)"
proof -
  have a: "filter (\<lambda>r. \<not> blankRow r) [['' '', ''''], ['''', ''x''], [], [''y'']] =
           [['''', ''x''], [''y'']]"
    by code_simp
  have b: "length (filter blankRow [['' '', ''''], ['''', ''x''], [], [''y'']]) = 2"
    by code_simp
  from removeEmptyRows_removes_exactly_blank_rows
         [of "[['' '', ''''], ['''', ''x''], [], [''y'']]" "[]"]
  show ?thesis unfolding a b by simp
qed







section \<open>Properties of standardizeCase\<close>

lemma standardizeCase_cell_string:
  "standardizeCase_cell (Str s) = Inr (Str (standardizedCell s))"
  by (simp add: standardizeCase_cell_def standardizedCell_def)

lemma standardizeCase_strings:
  "standardizeCase (tableOf t) hdrs = Inr (tableOf (map (map standardizedCell) t))"
proof -
  have row: "mapE standardizeCase_cell (map Str r) = Inr (map Str (map standardizedCell r))" for r
    by (induction r) (simp_all add: standardizeCase_cell_string)
  have "mapE (\<lambda>row. mapE standardizeCase_cell row) (tableOf t) =
        Inr (map (\<lambda>row. map Str (map standardizedCell (map orEmpty row))) (tableOf t))"
    by (rule mapE_total) (auto simp: tableOf_def row comp_def)
  then show ?thesis
    by (simp add: standardizeCase_def tableOf_def comp_def)
qed

text \<open>
  C7. On every table of strings and every header list \<open>standardizeCase\<close> returns a table
  only (no count): each cell that is non-empty and whose \<open>Number\<close> is NaN is replaced by
  its lowercase form, each cell that parses as a number and each empty cell is returned
  as it is.
\<close>

theorem standardizeCase_lowercases_non_numeric_cells:
  "standardizeCase (tableOf t) hdrs = Inr (tableOf (map (map standardizedCell) t))
   \<and> (s \<noteq> [] \<and> isNaN_Number (Str s) \<longrightarrow> standardizedCell s = toLowerCase s)
   \<and> (\<not> isNaN_Number (Str s) \<longrightarrow> standardizedCell s = s)
   \<and> standardizedCell [] = []"
  using standardizeCase_strings [of t hdrs] by (simp add: standardizedCell_def)

theorem standardizeCase_lowercases_non_numeric_cells_witness:
  "standardizeCase
     (tableOf [[''Alice'', ''12.5'', '''', '' 7 '', ''0x1F'', ''1E5'', ''-Infinity'', ''NaN'', ''12abC'']])
     [''h''] =
   Inr (tableOf [[''alice'', ''12.5'', '''', '' 7 '', ''0x1F'', ''1E5'', ''-Infinity'', ''nan'', ''12abc'']])"
proof -
  have a: "map (map standardizedCell)
             [[''Alice'', ''12.5'', '''', '' 7 '', ''0x1F'', ''1E5'', ''-Infinity'', ''NaN'', ''12abC'']] =
           [[''alice'', ''12.5'', '''', '' 7 '', ''0x1F'', ''1E5'', ''-Infinity'', ''nan'', ''12abc'']]"
    by code_simp
  from standardizeCase_lowercases_non_numeric_cells
         [of "[[''Alice'', ''12.5'', '''', '' 7 '', ''0x1F'', ''1E5'', ''-Infinity'', ''NaN'', ''12abC'']]"
             "[''h'']" "[]"]
  show ?thesis unfolding a by simp
qed

section \<open>Properties of parseCSV\<close>

lemma splitLines_not_Nil: "splitLines s \<noteq> []"
  by (induction s rule: splitLines.induct) (auto split: list.splits)

lemma splitLines_concat_chars: "set (concat (splitLines s)) \<subseteq> set s"
proof (induction s rule: splitLines.induct)
  case 1
  then show ?case by simp
next
  case (2 c)
  then show ?case by simp
next
  case (3 c d cs)
  show ?case
  proof (cases "c = LF")
    case True
    with 3 show ?thesis by auto
  next
    case nlf: False
    show ?thesis
    proof (cases "c = CR \<and> d = LF")
      case True
      with nlf 3 show ?thesis by auto
    next
      case False
      with nlf 3 have ih: "set (concat (splitLines (d # cs))) \<subseteq> set (d # cs)" by simp
      from False nlf have eq: "splitLines (c # d # cs) =
          (case splitLines (d # cs) of [] \<Rightarrow> [[c]] | l # ls \<Rightarrow> (c # l) # ls)"
        by auto
      show ?thesis
      proof (cases "splitLines (d # cs)")
        case Nil
        then show ?thesis using eq by simp
      next
        case (Cons l ls)
        with ih have "set l \<union> set (concat ls) \<subseteq> set (d # cs)" by simp
        then show ?thesis unfolding eq Cons by auto
      qed
    qed
  qed
qed

lemma splitLines_chars: "l \<in> set (splitLines s) \<Longrightarrow> set l \<subseteq> set s"
  using splitLines_concat_chars [of s] by auto

lemma trim_eq_Nil: "(trim s = []) = list_all isWhiteSpace s"
proof
  assume "trim s = []"
  then have "dropWhile isWhiteSpace (rev (dropWhile isWhiteSpace s)) = []"
    by (simp add: trim_def)
  then have a: "\<forall>c \<in> set (dropWhile isWhiteSpace s). isWhiteSpace c"
    by simp
  have "dropWhile isWhiteSpace s = []"
  proof (cases "dropWhile isWhiteSpace s")
    case Nil
    then show ?thesis .
  next
    case (Cons x xs)
    then have "\<not> isWhiteSpace x" by (metis hd_dropWhile list.sel(1) list.distinct(1))
    with a Cons show ?thesis by simp
  qed
  then have "\<forall>c \<in> set s. isWhiteSpace c"
    by (rule dropWhile_eq_Nil_conv [THEN iffD1])
  then show "list_all isWhiteSpace s"
    by (simp add: list_all_iff)
next
  assume "list_all isWhiteSpace s"
  then have "\<forall>c \<in> set s. isWhiteSpace c"
    by (simp add: list_all_iff)
  then have "dropWhile isWhiteSpace s = []"
    by (rule dropWhile_eq_Nil_conv [THEN iffD2])
  then show "trim s = []" by (auto simp: trim_def dest: set_dropWhileD)
qed

lemma blank_text_blank_lines:
  "list_all isWhiteSpace csvContent \<Longrightarrow>
     filter (\<lambda>line. trim line \<noteq> []) (splitLines csvContent) = []"
proof -
  assume a: "list_all isWhiteSpace csvContent"
  have "trim l = []" if "l \<in> set (splitLines csvContent)" for l
    using splitLines_chars [OF that] a by (auto simp: trim_eq_Nil list_all_iff)
  then show ?thesis by (simp add: filter_empty_conv)
qed

lemma parseCSV_no_lines:
  "filter (\<lambda>line. trim line \<noteq> []) (splitLines csvContent) = [] \<Longrightarrow>
     parseCSV csvContent = Inr \<lparr>data = [], headers = []\<rparr> \<and>
     parseCSV_part001 csvContent = Inr \<lparr>data = [], headers = []\<rparr>"
  by (simp add: parseCSV_def parseCSV_part001_def)

lemma parseCSV_lines:
  "filter (\<lambda>line. trim line \<noteq> []) (splitLines csvContent) = header # rows \<Longrightarrow>
     parseCSV csvContent =
       Inr \<lparr>data = map (\<lambda>line. map trim (split (CHR '','') line)) rows,
            headers = map trim (split (CHR '','') header)\<rparr>"
  by (simp add: parseCSV_def index0_def)

lemma parseCSV_part001_lines:
  "splitLines csvContent = firstLine # others \<Longrightarrow>
   filter (\<lambda>line. trim line \<noteq> []) (splitLines csvContent) = header # rows \<Longrightarrow>
   d = (if CHR '';'' \<in> set firstLine then CHR '';'' else CHR '','') \<Longrightarrow>
     parseCSV_part001 csvContent =
       Inr \<lparr>data = map (\<lambda>line. map trim (split d line)) rows,
            headers = map trim (split d header)\<rparr>"
  by (simp add: parseCSV_part001_def detectDelimiter_def index0_def Let_def)

lemma parseCSV_total: "\<exists>p. parseCSV csvContent = Inr p"
  by (cases "filter (\<lambda>line. trim line \<noteq> []) (splitLines csvContent)")
     (simp_all add: parseCSV_no_lines parseCSV_lines)

lemma parseCSV_part001_total: "\<exists>p. parseCSV_part001 csvContent = Inr p"
proof (cases "filter (\<lambda>line. trim line \<noteq> []) (splitLines csvContent)")
  case Nil
  then show ?thesis by (simp add: parseCSV_no_lines)
next
  case (Cons header rows)
  obtain firstLine others where "splitLines csvContent = firstLine # others"
    using splitLines_not_Nil [of csvContent] by (cases "splitLines csvContent") auto
  from parseCSV_part001_lines [OF this Cons refl] show ?thesis by blast
qed

text \<open>
  \<open>parseCSV\<close> of part_001 takes the delimiter from the first line of the text alone:
  a semicolon if that line contains one, a comma otherwise. The header, which is the
  first non-blank line, and every later non-blank line are split on that one delimiter,
  and each cell is trimmed. The text always has a first line.
\<close>

lemma parseCSV_part001_delimiter_from_first_line:
  "(splitLines csvContent = firstLine # others \<and>
    filter (\<lambda>line. trim line \<noteq> []) (splitLines csvContent) = header # rows \<longrightarrow>
      parseCSV_part001 csvContent =
        Inr \<lparr>data = map (\<lambda>line. map trim
                       (split (if CHR '';'' \<in> set firstLine then CHR '';'' else CHR '','') line)) rows,
             headers = map trim
                       (split (if CHR '';'' \<in> set firstLine then CHR '';'' else CHR '','') header)\<rparr>)
   \<and> splitLines csvContent \<noteq> []"
  using parseCSV_part001_lines [of csvContent firstLine others header rows, OF _ _ refl]
        splitLines_not_Nil [of csvContent]
  by blast

lemma parseCSV_part001_delimiter_from_first_line_example:
  "parseCSV_part001 (''x,y;z'' @ [CR, LF] @ '' '' @ [LF] @ ''1,2 ; 3'' @ [LF] @ ''4'') =
     Inr \<lparr>data = [[''1,2'', ''3''], [''4'']], headers = [''x,y'', ''z'']\<rparr>"
proof -
  have a: "splitLines (''x,y;z'' @ [CR, LF] @ '' '' @ [LF] @ ''1,2 ; 3'' @ [LF] @ ''4'') =
           ''x,y;z'' # ['' '', ''1,2 ; 3'', ''4'']"
    by code_simp
  have b: "filter (\<lambda>line. trim line \<noteq> [])
             (splitLines (''x,y;z'' @ [CR, LF] @ '' '' @ [LF] @ ''1,2 ; 3'' @ [LF] @ ''4'')) =
           ''x,y;z'' # [''1,2 ; 3'', ''4'']"
    by code_simp
  have c: "map (\<lambda>line. map trim
                  (split (if CHR '';'' \<in> set ''x,y;z'' then CHR '';'' else CHR '','') line))
             [''1,2 ; 3'', ''4''] = [[''1,2'', ''3''], [''4'']]"
    by code_simp
  have d: "map trim (split (if CHR '';'' \<in> set ''x,y;z'' then CHR '';'' else CHR '','') ''x,y;z'') =
           [''x,y'', ''z'']"
    by code_simp
  from parseCSV_part001_delimiter_from_first_line
         [of "''x,y;z'' @ [CR, LF] @ '' '' @ [LF] @ ''1,2 ; 3'' @ [LF] @ ''4''"
             "''x,y;z''" "['' '', ''1,2 ; 3'', ''4'']" "''x,y;z''" "[''1,2 ; 3'', ''4'']"]
       a b
  show ?thesis unfolding c d by blast
qed

text \<open>
  C2. The delimiter is detected by \<open>parseCSV\<close> of part_001 ("Improved to detect and handle
  different delimiters"). \<open>parseCSV\<close> of csvUtils.ts, the module the components import,
  never looks for a semicolon and splits every line on the comma: on \<open>"a;b\n1;2"\<close> its
  headers are \<open>["a;b"]\<close> and its rows \<open>[["1;2"]]\<close>, where part_001 returns the headers
  \<open>["a","b"]\<close> and the rows \<open>[["1","2"]]\<close>.
\<close>

theorem parseCSV_csvUtils_ignores_semicolon:
  "parseCSV (''a;b'' @ [LF] @ ''1;2'') = Inr \<lparr>data = [[''1;2'']], headers = [''a;b'']\<rparr> \<and>
   parseCSV_part001 (''a;b'' @ [LF] @ ''1;2'') =
     Inr \<lparr>data = [[''1'', ''2'']], headers = [''a'', ''b'']\<rparr>"
  by code_simp

text \<open>
  C8. On every text \<open>parseCSV\<close> returns (it never throws), in csvUtils.ts and in
  part_001. On a text without a non-blank line, and so on every text that is empty or
  consists of white space only, it returns empty headers and an empty table.
\<close>

theorem parseCSV_never_raises:
  "(\<exists>p. parseCSV csvContent = Inr p) \<and> (\<exists>p. parseCSV_part001 csvContent = Inr p)
   \<and> (filter (\<lambda>line. trim line \<noteq> []) (splitLines csvContent) = [] \<longrightarrow>
        parseCSV csvContent = Inr \<lparr>data = [], headers = []\<rparr> \<and>
        parseCSV_part001 csvContent = Inr \<lparr>data = [], headers = []\<rparr>)
   \<and> (list_all isWhiteSpace csvContent \<longrightarrow>
        parseCSV csvContent = Inr \<lparr>data = [], headers = []\<rparr> \<and>
        parseCSV_part001 csvContent = Inr \<lparr>data = [], headers = []\<rparr>)"
  using parseCSV_total [of csvContent] parseCSV_part001_total [of csvContent]
        parseCSV_no_lines [of csvContent] blank_text_blank_lines [of csvContent]
  by blast

theorem parseCSV_never_raises_witness:
  "list_all isWhiteSpace ('' '' @ [CR, LF] @ ''  '' @ [LF]) \<and>
   parseCSV ('' '' @ [CR, LF] @ ''  '' @ [LF]) = Inr \<lparr>data = [], headers = []\<rparr> \<and>
   parseCSV_part001 ('' '' @ [CR, LF] @ ''  '' @ [LF]) = Inr \<lparr>data = [], headers = []\<rparr> \<and>
   parseCSV [] = Inr \<lparr>data = [], headers = []\<rparr>"
proof -
  have a: "list_all isWhiteSpace ('' '' @ [CR, LF] @ ''  '' @ [LF])"
    by code_simp
  have b: "list_all isWhiteSpace []"
    by simp
  from parseCSV_never_raises [of "'' '' @ [CR, LF] @ ''  '' @ [LF]"] a
       parseCSV_never_raises [of "[]"] b
  show ?thesis by blast
qed

section \<open>The shape of the tables the transforms return\<close>

lemma removeDuplicates_filter_subseq: "subseq (removeDuplicates_filter seen dat) dat"
  by (induction dat arbitrary: seen) (auto simp: Let_def)

lemma removeDuplicates_subseq:
  "\<exists>out n. removeDuplicates dat = Inr (out, n) \<and> subseq out dat"
  by (simp add: removeDuplicates_def Let_def removeDuplicates_filter_subseq)

lemma removeEmptyRows_subseq:
  "\<exists>out n. removeEmptyRows (tableOf t) = Inr (out, n) \<and> subseq out (tableOf t)"
proof -
  have "subseq (tableOf (filter (\<lambda>r. \<not> blankRow r) t)) (tableOf t)"
    unfolding tableOf_def by (rule subseq_map) simp
  then show ?thesis
    by (simp add: removeEmptyRows_strings)
qed

lemma row_lengths_tableOf: "map length (tableOf t) = map length t"
  by (simp add: tableOf_def comp_def)

lemma trimWhitespace_same_shape:
  "\<exists>out n. trimWhitespace (tableOf t) = Inr (out, n) \<and> map length out = map length (tableOf t)"
  by (simp add: trimWhitespace_strings row_lengths_tableOf comp_def)

lemma trimWhitespace_part001_same_shape:
  "\<exists>out n. trimWhitespace_part001 dat = Inr (out, n) \<and> map length out = map length dat"
  by (simp add: trimWhitespace_part001_closed_form comp_def)

lemma standardizeCase_same_shape:
  "\<exists>out. standardizeCase (tableOf t) hdrs = Inr out \<and> map length out = map length (tableOf t)"
  by (simp add: standardizeCase_strings row_lengths_tableOf comp_def)

lemma subseq_rows:
  "subseq out dat \<Longrightarrow> set out \<subseteq> set dat \<and> length out \<le> length dat"
  using subseq_set_subset [of out dat] list_emb_length [of "(=)" out dat] by simp

text \<open>
  C10. \<open>trimWhitespace\<close> and \<open>standardizeCase\<close> return a table with the rows of the input,
  each with as many cells as before (the list of row lengths is the same).
  \<open>removeDuplicates\<close> and \<open>removeEmptyRows\<close> return a subsequence of the input rows: the
  output is the input with some rows left out, so each output row is an input row, the
  order is kept and the output is no longer than the input. This holds for the functions
  of csvUtils.ts on tables of strings and for the null-tolerant functions of part_001
  on every table.
\<close>

theorem transforms_keep_shape:
  "(\<exists>out n. trimWhitespace (tableOf t) = Inr (out, n) \<and>
             map length out = map length (tableOf t))
   \<and> (\<exists>out n. trimWhitespace_part001 dat = Inr (out, n) \<and> map length out = map length dat)
   \<and> (\<exists>out. standardizeCase (tableOf t) hdrs = Inr out \<and>
             map length out = map length (tableOf t))
   \<and> (\<exists>out n. removeDuplicates_part001 dat = Inr (out, n) \<and>
             subseq out dat \<and> set out \<subseteq> set dat \<and> length out \<le> length dat)
   \<and> (\<exists>out n. removeDuplicates dat = Inr (out, n) \<and>
             subseq out dat \<and> set out \<subseteq> set dat \<and> length out \<le> length dat)
   \<and> (\<exists>out n. removeEmptyRows (tableOf t) = Inr (out, n) \<and>
             subseq out (tableOf t) \<and> set out \<subseteq> set (tableOf t) \<and>
             length out \<le> length (tableOf t))
   \<and> (\<exists>out n. removeEmptyRows_part001 dat = Inr (out, n) \<and>
             subseq out dat \<and> set out \<subseteq> set dat \<and> length out \<le> length dat)"
proof -
  have rd1: "\<exists>out n. removeDuplicates_part001 dat = Inr (out, n) \<and>
             subseq out dat \<and> set out \<subseteq> set dat \<and> length out \<le> length dat"
    using removeDuplicates_part001_subseq [of dat] subseq_rows by blast
  have rd: "\<exists>out n. removeDuplicates dat = Inr (out, n) \<and>
             subseq out dat \<and> set out \<subseteq> set dat \<and> length out \<le> length dat"
    using removeDuplicates_subseq [of dat] subseq_rows by blast
  have re: "\<exists>out n. removeEmptyRows (tableOf t) = Inr (out, n) \<and>
             subseq out (tableOf t) \<and> set out \<subseteq> set (tableOf t) \<and>
             length out \<le> length (tableOf t)"
    using removeEmptyRows_subseq [of t] subseq_rows by blast
  have re1: "\<exists>out n. removeEmptyRows_part001 dat = Inr (out, n) \<and>
             subseq out dat \<and> set out \<subseteq> set dat \<and> length out \<le> length dat"
    using removeEmptyRows_part001_subseq [of dat] subseq_rows by blast
  from trimWhitespace_same_shape [of t] trimWhitespace_part001_same_shape [of dat]
       standardizeCase_same_shape [of t hdrs] rd1 rd re re1
  show ?thesis by blast
qed

theorem transforms_keep_shape_witness:
  "(\<exists>out n. trimWhitespace (tableOf [['' x'', ''Y''], ['''', '' '']]) = Inr (out, n) \<and>
             map length out = map length (tableOf [['' x'', ''Y''], ['''', '' '']]))
   \<and> (\<exists>out n. removeDuplicates_part001
                      [[Str ''A'', Null], [Str ''a ''], [Str ''a'', Undefined]] = Inr (out, n) \<and>
             subseq out [[Str ''A'', Null], [Str ''a ''], [Str ''a'', Undefined]] \<and>
             set out \<subseteq> set [[Str ''A'', Null], [Str ''a ''], [Str ''a'', Undefined]] \<and>
             length out \<le> length [[Str ''A'', Null], [Str ''a ''], [Str ''a'', Undefined]])"
  using transforms_keep_shape
          [of "[['' x'', ''Y''], ['''', '' '']]"
              "[[Str ''A'', Null], [Str ''a ''], [Str ''a'', Undefined]]" "[]"]
  by blast

section \<open>Properties of the pipeline runner\<close>

lemma csvUtils_ts_stages:
  "stringTable dat \<Longrightarrow>
     \<exists>out n. mod_removeEmptyRows csvUtils_ts dat = Inr (out, n) \<and> stringTable out"
  "stringTable dat \<Longrightarrow>
     \<exists>out n. mod_removeDuplicates csvUtils_ts dat = Inr (out, n) \<and> stringTable out"
  "stringTable dat \<Longrightarrow>
     \<exists>out n. mod_trimWhitespace csvUtils_ts dat = Inr (out, n) \<and> stringTable out"
  "stringTable dat \<Longrightarrow> \<exists>out. mod_standardizeCase csvUtils_ts dat hdrs = Inr out"
proof -
  assume a: "stringTable dat"
  then obtain t where t: "dat = tableOf t" using stringTable_is_tableOf by blast
  show "\<exists>out n. mod_removeEmptyRows csvUtils_ts dat = Inr (out, n) \<and> stringTable out"
    by (simp add: csvUtils_ts_def t removeEmptyRows_strings stringTable_tableOf)
  show "\<exists>out n. mod_removeDuplicates csvUtils_ts dat = Inr (out, n) \<and> stringTable out"
    using removeDuplicates_subseq [of dat] a stringTable_subseq by (auto simp: csvUtils_ts_def)
  show "\<exists>out n. mod_trimWhitespace csvUtils_ts dat = Inr (out, n) \<and> stringTable out"
    by (simp add: csvUtils_ts_def t trimWhitespace_strings stringTable_tableOf)
  show "\<exists>out. mod_standardizeCase csvUtils_ts dat hdrs = Inr out"
    by (simp add: csvUtils_ts_def t standardizeCase_strings)
qed

lemma csvUtils_part001_stages:
  "stringTable dat \<Longrightarrow>
     \<exists>out n. mod_removeEmptyRows csvUtils_part001 dat = Inr (out, n) \<and> stringTable out"
  "stringTable dat \<Longrightarrow>
     \<exists>out n. mod_removeDuplicates csvUtils_part001 dat = Inr (out, n) \<and> stringTable out"
  "stringTable dat \<Longrightarrow>
     \<exists>out n. mod_trimWhitespace csvUtils_part001 dat = Inr (out, n) \<and> stringTable out"
  "stringTable dat \<Longrightarrow> \<exists>out. mod_standardizeCase csvUtils_part001 dat hdrs = Inr out"
proof -
  assume a: "stringTable dat"
  then obtain t where t: "dat = tableOf t" using stringTable_is_tableOf by blast
  show "\<exists>out n. mod_removeEmptyRows csvUtils_part001 dat = Inr (out, n) \<and> stringTable out"
    using removeEmptyRows_part001_subseq [of dat] a stringTable_subseq
    by (auto simp: csvUtils_part001_def)
  show "\<exists>out n. mod_removeDuplicates csvUtils_part001 dat = Inr (out, n) \<and> stringTable out"
    using removeDuplicates_part001_subseq [of dat] a stringTable_subseq
    by (auto simp: csvUtils_part001_def)
  show "\<exists>out n. mod_trimWhitespace csvUtils_part001 dat = Inr (out, n) \<and> stringTable out"
    by (simp add: csvUtils_part001_def t trimWhitespace_part001_closed_form
                  trimmedCell_strings stringTable_tableOf)
  show "\<exists>out. mod_standardizeCase csvUtils_part001 dat hdrs = Inr out"
    by (simp add: csvUtils_part001_def t standardizeCase_strings)
qed

lemma stagesTotal_ts: "stagesTotal csvUtils_ts"
  unfolding stagesTotal_def using csvUtils_ts_stages by blast

lemma stagesTotal_part001: "stagesTotal csvUtils_part001"
  unfolding stagesTotal_def using csvUtils_part001_stages by blast

lemma counted_stage_total:
  assumes "stringTable d"
    and "\<And>dat. stringTable dat \<Longrightarrow> \<exists>out n. f dat = Inr (out, n) \<and> stringTable out"
  shows "\<exists>d' s'. (if b then (case f d of Inl e \<Rightarrow> Inl e | Inr (x, count) \<Rightarrow> Inr (x, upd count s))
                   else Inr (d, s)) = Inr (d', s') \<and> stringTable d'"
proof (cases b)
  case True
  from assms obtain out n where "f d = Inr (out, n)" "stringTable out" by blast
  with True show ?thesis by simp
next
  case False
  with assms(1) show ?thesis by simp
qed

text \<open>On a table of strings no stage throws, so the \<open>try\<close> block runs to its end.\<close>

lemma cleanData_try_total:
  assumes m: "stagesTotal m" and d: "stringTable dat"
  shows "\<exists>rows st. cleanData_try m opts dat hdrs = Inr (rows, st)"
proof -
  from m have re: "\<And>dat. stringTable dat \<Longrightarrow>
      \<exists>out n. mod_removeEmptyRows m dat = Inr (out, n) \<and> stringTable out"
    unfolding stagesTotal_def by blast
  from m have rd: "\<And>dat. stringTable dat \<Longrightarrow>
      \<exists>out n. mod_removeDuplicates m dat = Inr (out, n) \<and> stringTable out"
    unfolding stagesTotal_def by blast
  from m have tw: "\<And>dat. stringTable dat \<Longrightarrow>
      \<exists>out n. mod_trimWhitespace m dat = Inr (out, n) \<and> stringTable out"
    unfolding stagesTotal_def by blast
  from m have sc: "\<And>dat. stringTable dat \<Longrightarrow> \<exists>out. mod_standardizeCase m dat hdrs = Inr out"
    unfolding stagesTotal_def by blast
  from counted_stage_total [where f = "mod_removeEmptyRows m" and b = "optRemoveEmptyRows opts"
      and upd = "\<lambda>c s. s\<lparr>emptyRowsRemoved := c\<rparr>"
      and s = "\<lparr>duplicatesRemoved = 0, whitespaceFixed = 0, emptyRowsRemoved = 0\<rparr>",
      OF d re]
  obtain d1 s1 where 1:
    "(if optRemoveEmptyRows opts
      then (case mod_removeEmptyRows m dat of
              Inl e \<Rightarrow> Inl e
            | Inr (noEmptyRows, count) \<Rightarrow>
                Inr (noEmptyRows, \<lparr>duplicatesRemoved = 0, whitespaceFixed = 0, emptyRowsRemoved = 0\<rparr>
                      \<lparr>emptyRowsRemoved := count\<rparr>))
      else Inr (dat, \<lparr>duplicatesRemoved = 0, whitespaceFixed = 0, emptyRowsRemoved = 0\<rparr>)) = Inr (d1, s1)"
    and d1: "stringTable d1"
    by blast
  from counted_stage_total [where f = "mod_removeDuplicates m" and b = "optRemoveDuplicates opts"
      and upd = "\<lambda>c s. s\<lparr>duplicatesRemoved := c\<rparr>" and s = s1, OF d1 rd]
  obtain d2 s2 where 2:
    "(if optRemoveDuplicates opts
      then (case mod_removeDuplicates m d1 of
              Inl e \<Rightarrow> Inl e
            | Inr (noDuplicates, count) \<Rightarrow> Inr (noDuplicates, s1\<lparr>duplicatesRemoved := count\<rparr>))
      else Inr (d1, s1)) = Inr (d2, s2)"
    and d2: "stringTable d2"
    by blast
  from counted_stage_total [where f = "mod_trimWhitespace m" and b = "optTrimWhitespace opts"
      and upd = "\<lambda>c s. s\<lparr>whitespaceFixed := c\<rparr>" and s = s2, OF d2 tw]
  obtain d3 s3 where 3:
    "(if optTrimWhitespace opts
      then (case mod_trimWhitespace m d2 of
              Inl e \<Rightarrow> Inl e
            | Inr (trimmed, count) \<Rightarrow> Inr (trimmed, s2\<lparr>whitespaceFixed := count\<rparr>))
      else Inr (d2, s2)) = Inr (d3, s3)"
    and d3: "stringTable d3"
    by blast
  obtain d4 where 4:
    "(if optStandardizeCase opts then mod_standardizeCase m d3 hdrs else Inr d3) = Inr d4"
    using sc [OF d3] by (cases "optStandardizeCase opts") auto
  show ?thesis
    unfolding cleanData_try_def Let_def 1 by (simp add: 2 3 4)
qed

text \<open>
  What a finished run has done: each stage worked on the output of the stage before it,
  in the order of the source, and a stage that is switched off passed its input on and
  left its statistic at 0.
\<close>

lemma cleanData_try_chain:
  assumes "cleanData_try m opts dat hdrs = Inr (rows, st)"
  shows "\<exists>d1 d2 d3.
      (if optRemoveEmptyRows opts then mod_removeEmptyRows m dat = Inr (d1, emptyRowsRemoved st)
       else d1 = dat \<and> emptyRowsRemoved st = 0) \<and>
      (if optRemoveDuplicates opts then mod_removeDuplicates m d1 = Inr (d2, duplicatesRemoved st)
       else d2 = d1 \<and> duplicatesRemoved st = 0) \<and>
      (if optTrimWhitespace opts then mod_trimWhitespace m d2 = Inr (d3, whitespaceFixed st)
       else d3 = d2 \<and> whitespaceFixed st = 0) \<and>
      (if optStandardizeCase opts then mod_standardizeCase m d3 hdrs = Inr rows
       else rows = d3)"
  using assms unfolding cleanData_try_def Let_def
  by (auto split: if_splits sum.splits prod.splits)

lemma toggleOption_commute:
  "toggleOption a (toggleOption b opts) = toggleOption b (toggleOption a opts)"
  by (cases a; cases b) simp_all

lemma cleanData_is_its_calls:
  "cleanData m s =
     fold applyCall (cleanData_calls m (options s) (originalData s) (csvHeaders s)) s"
  by (auto simp: cleanData_def cleanData_calls_def handleDataCleaned_def
           split: sum.splits prod.splits)

text \<open>
  C4, counterexample. The statement "for every table" of the specification fails on the
  empty table: \<open>cleanData\<close> returns before it runs anything, so even with every
  transform switched off it makes no call at all; in particular it never hands a record
  of zero statistics to \<open>setStats\<close>.
\<close>

theorem cleanData_empty_table_makes_no_call:
  "cleanData_calls csvUtils_ts noOptions [] [] = [] \<and>
   SetStats \<lparr>duplicatesRemoved = 0, whitespaceFixed = 0, emptyRowsRemoved = 0\<rparr>
     \<notin> set (cleanData_calls csvUtils_ts noOptions [] [])"
  by (simp add: cleanData_calls_def)

text \<open>
  C4, amended. On the empty table, whatever the headers, the options and the module,
  \<open>cleanData\<close> makes no call and leaves the state as it is. For every non-empty table of
  strings, all headers and all options, with the transforms of csvUtils.ts or of
  part_001, \<open>cleanData\<close> hands to \<open>setStats\<close> and to \<open>onDataCleaned\<close> statistics and a
  table that arise from the fixed order removeEmptyRows, removeDuplicates,
  trimWhitespace, standardizeCase: each enabled transform is applied to the output of
  the stage before it and its count is the statistic; each transform that is switched off
  passes its input on and its statistic is 0. The options are a record of four flags, so
  the order of toggling does not matter.
\<close>

theorem cleanData_runs_transforms_in_fixed_order:
  "cleanData_calls m opts [] hdrs = []
   \<and> (originalData s = [] \<longrightarrow> cleanData m s = s)
   \<and> ((m = csvUtils_ts \<or> m = csvUtils_part001) \<and> t \<noteq> [] \<longrightarrow>
        (\<exists>rows st d1 d2 d3.
           cleanData_calls m opts (tableOf t) hdrs =
             [SetIsProcessing True, SetStats st, OnDataCleaned rows,
              ShowToast (DataCleaningComplete (duplicatesRemoved st) (emptyRowsRemoved st)),
              SetIsProcessing False] \<and>
           (if optRemoveEmptyRows opts
            then mod_removeEmptyRows m (tableOf t) = Inr (d1, emptyRowsRemoved st)
            else d1 = tableOf t \<and> emptyRowsRemoved st = 0) \<and>
           (if optRemoveDuplicates opts
            then mod_removeDuplicates m d1 = Inr (d2, duplicatesRemoved st)
            else d2 = d1 \<and> duplicatesRemoved st = 0) \<and>
           (if optTrimWhitespace opts
            then mod_trimWhitespace m d2 = Inr (d3, whitespaceFixed st)
            else d3 = d2 \<and> whitespaceFixed st = 0) \<and>
           (if optStandardizeCase opts
            then mod_standardizeCase m d3 hdrs = Inr rows
            else rows = d3)))
   \<and> toggleOption a (toggleOption b opts) = toggleOption b (toggleOption a opts)"
proof -
  have e: "cleanData_calls m opts [] hdrs = []"
    by (simp add: cleanData_calls_def)
  have e': "originalData s = [] \<longrightarrow> cleanData m s = s"
    by (simp add: cleanData_def)
  have r: "\<exists>rows st d1 d2 d3.
           cleanData_calls m opts (tableOf t) hdrs =
             [SetIsProcessing True, SetStats st, OnDataCleaned rows,
              ShowToast (DataCleaningComplete (duplicatesRemoved st) (emptyRowsRemoved st)),
              SetIsProcessing False] \<and>
           (if optRemoveEmptyRows opts
            then mod_removeEmptyRows m (tableOf t) = Inr (d1, emptyRowsRemoved st)
            else d1 = tableOf t \<and> emptyRowsRemoved st = 0) \<and>
           (if optRemoveDuplicates opts
            then mod_removeDuplicates m d1 = Inr (d2, duplicatesRemoved st)
            else d2 = d1 \<and> duplicatesRemoved st = 0) \<and>
           (if optTrimWhitespace opts
            then mod_trimWhitespace m d2 = Inr (d3, whitespaceFixed st)
            else d3 = d2 \<and> whitespaceFixed st = 0) \<and>
           (if optStandardizeCase opts
            then mod_standardizeCase m d3 hdrs = Inr rows
            else rows = d3)"
    if m: "m = csvUtils_ts \<or> m = csvUtils_part001" and ne: "t \<noteq> []"
  proof -
    from m have tot: "stagesTotal m"
      using stagesTotal_ts stagesTotal_part001 by blast
    from cleanData_try_total [OF tot stringTable_tableOf] obtain rows st where
      r: "cleanData_try m opts (tableOf t) hdrs = Inr (rows, st)"
      by blast
    from ne have "length (tableOf t) \<noteq> 0" by (simp add: tableOf_def)
    then have c: "cleanData_calls m opts (tableOf t) hdrs =
             [SetIsProcessing True, SetStats st, OnDataCleaned rows,
              ShowToast (DataCleaningComplete (duplicatesRemoved st) (emptyRowsRemoved st)),
              SetIsProcessing False]"
      by (simp add: cleanData_calls_def r)
    from c cleanData_try_chain [OF r] show ?thesis by blast
  qed
  from e e' r toggleOption_commute [of a b opts] show ?thesis by blast
qed

theorem cleanData_runs_transforms_in_fixed_order_witness:
  "\<exists>rows st d1 d2 d3.
     cleanData_calls csvUtils_ts allOptions
         (tableOf [[''Alice'', ''NYC''], [''Alice'', ''NYC''], ['''', '''']]) [''Name'', ''City''] =
       [SetIsProcessing True, SetStats st, OnDataCleaned rows,
        ShowToast (DataCleaningComplete (duplicatesRemoved st) (emptyRowsRemoved st)),
        SetIsProcessing False] \<and>
     removeEmptyRows (tableOf [[''Alice'', ''NYC''], [''Alice'', ''NYC''], ['''', '''']]) =
       Inr (d1, emptyRowsRemoved st) \<and>
     removeDuplicates d1 = Inr (d2, duplicatesRemoved st) \<and>
     trimWhitespace d2 = Inr (d3, whitespaceFixed st) \<and>
     standardizeCase d3 [''Name'', ''City''] = Inr rows"
proof -
  have o: "optRemoveEmptyRows allOptions" "optRemoveDuplicates allOptions"
          "optTrimWhitespace allOptions" "optStandardizeCase allOptions"
    by (simp_all add: allOptions_def defaultOptions_def)
  have f: "mod_removeEmptyRows csvUtils_ts = removeEmptyRows"
          "mod_removeDuplicates csvUtils_ts = removeDuplicates"
          "mod_trimWhitespace csvUtils_ts = trimWhitespace"
          "mod_standardizeCase csvUtils_ts = standardizeCase"
    by (simp_all add: csvUtils_ts_def)
  have ne: "[[''Alice'', ''NYC''], [''Alice'', ''NYC''], ['''', '''']] \<noteq> []"
    by simp
  from cleanData_runs_transforms_in_fixed_order
         [of csvUtils_ts allOptions "[''Name'', ''City'']" initialState
             "[[''Alice'', ''NYC''], [''Alice'', ''NYC''], ['''', '''']]"
             StandardizeCase StandardizeCase] ne
  show ?thesis unfolding f by (simp add: o)
qed

text \<open>
  The \<open>try\<close> block is left by an exception exactly when a transform of the run throws:
  the transform may be any of the four, the ones before it having returned (or being
  switched off); and an error of the block is the error of one of the four transforms.
\<close>

lemma cleanData_try_throws:
  assumes
    "(optRemoveEmptyRows opts \<and> mod_removeEmptyRows m dat = Inl e) \<or>
     ((if optRemoveEmptyRows opts then mod_removeEmptyRows m dat = Inr (d1, n1) else d1 = dat) \<and>
      ((optRemoveDuplicates opts \<and> mod_removeDuplicates m d1 = Inl e) \<or>
       ((if optRemoveDuplicates opts then mod_removeDuplicates m d1 = Inr (d2, n2) else d2 = d1) \<and>
        ((optTrimWhitespace opts \<and> mod_trimWhitespace m d2 = Inl e) \<or>
         ((if optTrimWhitespace opts then mod_trimWhitespace m d2 = Inr (d3, n3) else d3 = d2) \<and>
          optStandardizeCase opts \<and> mod_standardizeCase m d3 hdrs = Inl e)))))"
  shows "cleanData_try m opts dat hdrs = Inl e"
  using assms unfolding cleanData_try_def Let_def
  by (auto split: if_splits)

lemma cleanData_try_error_is_a_transform_error:
  assumes "cleanData_try m opts dat hdrs = Inl e"
  shows "\<exists>d. mod_removeEmptyRows m d = Inl e \<or> mod_removeDuplicates m d = Inl e \<or>
             mod_trimWhitespace m d = Inl e \<or> mod_standardizeCase m d hdrs = Inl e"
  using assms unfolding cleanData_try_def Let_def
  by (auto split: if_splits sum.splits prod.splits)

lemma cleanData_failed_try_publishes_nothing:
  assumes "originalData s \<noteq> []"
    and "cleanData_try m (options s) (originalData s) (csvHeaders s) = Inl e"
  shows "csvData (cleanData m s) = csvData s \<and> stats (cleanData m s) = stats s \<and>
         originalData (cleanData m s) = originalData s \<and>
         toasts (cleanData m s) = toasts s @ [ErrorCleaningData e] \<and>
         cleanData_calls m (options s) (originalData s) (csvHeaders s) =
           [SetIsProcessing True, ShowToast (ErrorCleaningData e), SetIsProcessing False]"
  using assms by (simp add: cleanData_def cleanData_calls_def)

text \<open>
  C9. Whichever transform of a run throws (removeEmptyRows on the table, or
  removeDuplicates, trimWhitespace or standardizeCase on the output of the stages before
  it), \<open>cleanData\<close> shows the error in a toast and publishes nothing: it calls neither
  \<open>setStats\<close> nor \<open>onDataCleaned\<close>, and the current table, the statistics and the
  original table are what they were before the run.
\<close>

theorem cleanData_throwing_transform_publishes_nothing:
  assumes run: "originalData s \<noteq> []"
    and thr:
    "(optRemoveEmptyRows (options s) \<and> mod_removeEmptyRows m (originalData s) = Inl e) \<or>
     ((if optRemoveEmptyRows (options s)
       then mod_removeEmptyRows m (originalData s) = Inr (d1, n1) else d1 = originalData s) \<and>
      ((optRemoveDuplicates (options s) \<and> mod_removeDuplicates m d1 = Inl e) \<or>
       ((if optRemoveDuplicates (options s)
         then mod_removeDuplicates m d1 = Inr (d2, n2) else d2 = d1) \<and>
        ((optTrimWhitespace (options s) \<and> mod_trimWhitespace m d2 = Inl e) \<or>
         ((if optTrimWhitespace (options s)
           then mod_trimWhitespace m d2 = Inr (d3, n3) else d3 = d2) \<and>
          optStandardizeCase (options s) \<and>
          mod_standardizeCase m d3 (csvHeaders s) = Inl e)))))"
  shows "csvData (cleanData m s) = csvData s \<and> stats (cleanData m s) = stats s \<and>
         originalData (cleanData m s) = originalData s \<and>
         toasts (cleanData m s) = toasts s @ [ErrorCleaningData e] \<and>
         cleanData_calls m (options s) (originalData s) (csvHeaders s) =
           [SetIsProcessing True, ShowToast (ErrorCleaningData e), SetIsProcessing False]"
  by (rule cleanData_failed_try_publishes_nothing [OF run cleanData_try_throws [OF thr]])

theorem cleanData_throwing_transform_publishes_nothing_witness:
  "mod_trimWhitespace csvUtils_ts [[Str ''x'', Undefined]] = Inl TypeError \<and>
   csvData (cleanData csvUtils_ts failingState) = [[Str ''x'', Undefined]] \<and>
   stats (cleanData csvUtils_ts failingState) = None \<and>
   toasts (cleanData csvUtils_ts failingState) = [ErrorCleaningData TypeError] \<and>
   cleanData_calls csvUtils_ts allOptions [[Str ''x'', Undefined]] [] =
     [SetIsProcessing True, ShowToast (ErrorCleaningData TypeError), SetIsProcessing False] \<and>
   mod_trimWhitespace csvUtils_part001 [[Str ''x'', Undefined]] = Inr ([[Str ''x'', Undefined]], 0) \<and>
   mod_standardizeCase csvUtils_part001 [[Str ''x'', Undefined]] [] = Inl TypeError \<and>
   csvData (cleanData csvUtils_part001 failingState) = [[Str ''x'', Undefined]] \<and>
   stats (cleanData csvUtils_part001 failingState) = None \<and>
   toasts (cleanData csvUtils_part001 failingState) = [ErrorCleaningData TypeError] \<and>
   cleanData_calls csvUtils_part001 allOptions [[Str ''x'', Undefined]] [] =
     [SetIsProcessing True, ShowToast (ErrorCleaningData TypeError), SetIsProcessing False]"
proof -
  have a: "originalData failingState \<noteq> []"
    by (simp add: failingState_def initialState_def)
  have b:
    "(optRemoveEmptyRows (options failingState) \<and>
      mod_removeEmptyRows csvUtils_part001 (originalData failingState) = Inl TypeError) \<or>
     ((if optRemoveEmptyRows (options failingState)
       then mod_removeEmptyRows csvUtils_part001 (originalData failingState) =
              Inr ([[Str ''x'', Undefined]], 0)
       else [[Str ''x'', Undefined]] = originalData failingState) \<and>
      ((optRemoveDuplicates (options failingState) \<and>
        mod_removeDuplicates csvUtils_part001 [[Str ''x'', Undefined]] = Inl TypeError) \<or>
       ((if optRemoveDuplicates (options failingState)
         then mod_removeDuplicates csvUtils_part001 [[Str ''x'', Undefined]] =
                Inr ([[Str ''x'', Undefined]], 0)
         else [[Str ''x'', Undefined]] = [[Str ''x'', Undefined]]) \<and>
        ((optTrimWhitespace (options failingState) \<and>
          mod_trimWhitespace csvUtils_part001 [[Str ''x'', Undefined]] = Inl TypeError) \<or>
         ((if optTrimWhitespace (options failingState)
           then mod_trimWhitespace csvUtils_part001 [[Str ''x'', Undefined]] =
                  Inr ([[Str ''x'', Undefined]], 0)
           else [[Str ''x'', Undefined]] = [[Str ''x'', Undefined]]) \<and>
          optStandardizeCase (options failingState) \<and>
          mod_standardizeCase csvUtils_part001 [[Str ''x'', Undefined]]
            (csvHeaders failingState) = Inl TypeError)))))"
    by code_simp
  have b':
    "(optRemoveEmptyRows (options failingState) \<and>
      mod_removeEmptyRows csvUtils_ts (originalData failingState) = Inl TypeError) \<or>
     ((if optRemoveEmptyRows (options failingState)
       then mod_removeEmptyRows csvUtils_ts (originalData failingState) =
              Inr ([[Str ''x'', Undefined]], 0)
       else [[Str ''x'', Undefined]] = originalData failingState) \<and>
      ((optRemoveDuplicates (options failingState) \<and>
        mod_removeDuplicates csvUtils_ts [[Str ''x'', Undefined]] = Inl TypeError) \<or>
       ((if optRemoveDuplicates (options failingState)
         then mod_removeDuplicates csvUtils_ts [[Str ''x'', Undefined]] =
                Inr ([[Str ''x'', Undefined]], 0)
         else [[Str ''x'', Undefined]] = [[Str ''x'', Undefined]]) \<and>
        ((optTrimWhitespace (options failingState) \<and>
          mod_trimWhitespace csvUtils_ts [[Str ''x'', Undefined]] = Inl TypeError) \<or>
         ((if optTrimWhitespace (options failingState)
           then mod_trimWhitespace csvUtils_ts [[Str ''x'', Undefined]] =
                  Inr ([[Str ''x'', Undefined]], 0)
           else [[Str ''x'', Undefined]] = [[Str ''x'', Undefined]]) \<and>
          optStandardizeCase (options failingState) \<and>
          mod_standardizeCase csvUtils_ts [[Str ''x'', Undefined]]
            (csvHeaders failingState) = Inl TypeError)))))"
    by code_simp
  have c: "mod_trimWhitespace csvUtils_part001 [[Str ''x'', Undefined]] =
             Inr ([[Str ''x'', Undefined]], 0)"
          "mod_standardizeCase csvUtils_part001 [[Str ''x'', Undefined]] [] = Inl TypeError"
          "mod_trimWhitespace csvUtils_ts [[Str ''x'', Undefined]] = Inl TypeError"
    by code_simp+
  have d: "csvData failingState = [[Str ''x'', Undefined]]" "stats failingState = None"
          "toasts failingState = []" "options failingState = allOptions"
          "originalData failingState = [[Str ''x'', Undefined]]" "csvHeaders failingState = []"
    by (simp_all add: failingState_def initialState_def)
  from cleanData_throwing_transform_publishes_nothing [OF a b]
       cleanData_throwing_transform_publishes_nothing [OF a b'] c
  show ?thesis unfolding d by simp
qed

text \<open>
  C5, counterexample. The end-to-end example of the specification does not come out as
  stated: the tokenizer has already trimmed every cell, so \<open>trimWhitespace\<close> finds
  nothing to fix, and \<open>standardizeCase\<close> lowercases the two cells. The final rows are
  not \<open>[["Alice","NYC"]]\<close> and \<open>whitespaceFixed\<close> is 0, not 1 or more.
\<close>

theorem endToEnd_differs_from_example:
  "csvData (endToEnd csvUtils_ts) \<noteq> tableOf [[''Alice'', ''NYC'']] \<and>
   map_option whitespaceFixed (stats (endToEnd csvUtils_ts)) = Some 0 \<and>
   csvData (endToEnd csvUtils_part001) \<noteq> tableOf [[''Alice'', ''NYC'']] \<and>
   map_option whitespaceFixed (stats (endToEnd csvUtils_part001)) = Some 0"
proof -
  have a: "csvData (endToEnd csvUtils_ts) = tableOf [[''alice'', ''nyc'']]"
    by code_simp
  have b: "map_option whitespaceFixed (stats (endToEnd csvUtils_ts)) = Some 0"
    by code_simp
  have c: "csvData (endToEnd csvUtils_part001) = tableOf [[''alice'', ''nyc'']]"
    by code_simp
  have d: "map_option whitespaceFixed (stats (endToEnd csvUtils_part001)) = Some 0"
    by code_simp
  have e: "tableOf [[''alice'', ''nyc'']] \<noteq> tableOf [[''Alice'', ''NYC'']]"
    by (simp add: tableOf_def)
  show ?thesis unfolding a c using b d e by simp
qed

text \<open>
  C5, amended. Parsing \<open>"Name,City\nAlice, NYC\nAlice,NYC\n, \n"\<close> gives the headers
  \<open>["Name","City"]\<close> and the rows \<open>[["Alice","NYC"],["Alice","NYC"],["",""]]\<close>; the
  run with all four options enabled then publishes the rows \<open>[["alice","nyc"]]\<close> and the
  statistics emptyRowsRemoved = 1, duplicatesRemoved = 1, whitespaceFixed = 0, with the
  functions of csvUtils.ts and with those of part_001.
\<close>

theorem endToEnd_result:
  "parseCSV endToEndText =
     Inr \<lparr>data = [[''Alice'', ''NYC''], [''Alice'', ''NYC''], ['''', '''']],
          headers = [''Name'', ''City'']\<rparr> \<and>
   csvData (endToEnd csvUtils_ts) = tableOf [[''alice'', ''nyc'']] \<and>
   stats (endToEnd csvUtils_ts) =
     Some \<lparr>duplicatesRemoved = 1, whitespaceFixed = 0, emptyRowsRemoved = 1\<rparr> \<and>
   csvData (endToEnd csvUtils_part001) = tableOf [[''alice'', ''nyc'']] \<and>
   stats (endToEnd csvUtils_part001) =
     Some \<lparr>duplicatesRemoved = 1, whitespaceFixed = 0, emptyRowsRemoved = 1\<rparr>"
proof -
  have p: "parseCSV endToEndText =
     Inr \<lparr>data = [[''Alice'', ''NYC''], [''Alice'', ''NYC''], ['''', '''']],
          headers = [''Name'', ''City'']\<rparr>"
    by code_simp
  have a: "csvData (endToEnd csvUtils_ts) = tableOf [[''alice'', ''nyc'']]"
    by code_simp
  have b: "stats (endToEnd csvUtils_ts) =
     Some \<lparr>duplicatesRemoved = 1, whitespaceFixed = 0, emptyRowsRemoved = 1\<rparr>"
    by code_simp
  have c: "csvData (endToEnd csvUtils_part001) = tableOf [[''alice'', ''nyc'']]"
    by code_simp
  have d: "stats (endToEnd csvUtils_part001) =
     Some \<lparr>duplicatesRemoved = 1, whitespaceFixed = 0, emptyRowsRemoved = 1\<rparr>"
    by code_simp
  from p a b c d show ?thesis by blast
qed

end
